theory Spec2Isabelle
  imports Complex_Main
begin

section \<open>Numbers and library functions\<close>

text \<open>
  The program computes positions, angles and distances with Python floats. They are
  modelled as real numbers: every arithmetic operation is exact, so rounding is outside
  the model. Python integers are \<open>int\<close>.
\<close>

definition py_int :: "real \<Rightarrow> int" where
  \<comment> \<open>Python \<open>int(x)\<close> on a float: truncation toward zero.\<close>
  "py_int x = (if 0 \<le> x then \<lfloor>x\<rfloor> else \<lceil>x\<rceil>)"

definition radians :: "real \<Rightarrow> real" where
  \<comment> \<open>\<open>math.radians\<close>\<close>
  "radians a = a * pi / 180"

definition degrees :: "real \<Rightarrow> real" where
  \<comment> \<open>\<open>math.degrees\<close>\<close>
  "degrees r = r * 180 / pi"

definition py_mod :: "real \<Rightarrow> real \<Rightarrow> real" where
  \<comment> \<open>Python \<open>a % m\<close> on floats for a positive modulus: the result lies in \<open>[0, m)\<close>.\<close>
  "py_mod a m = a - m * of_int \<lfloor>a / m\<rfloor>"

definition atan2 :: "real \<Rightarrow> real \<Rightarrow> real" where
  \<comment> \<open>\<open>math.atan2(y, x)\<close>, the angle of the point \<open>(x, y)\<close> in \<open>(-pi, pi]\<close>.\<close>
  "atan2 y x =
     (if 0 < x then arctan (y / x)
      else if x < 0 \<and> 0 \<le> y then arctan (y / x) + pi
      else if x < 0 \<and> y < 0 then arctan (y / x) - pi
      else if 0 < y then pi / 2
      else if y < 0 then - (pi / 2)
      else 0)"

definition distance :: "real \<Rightarrow> real \<Rightarrow> real \<Rightarrow> real \<Rightarrow> real" where
  "distance x1 y1 x2 y2 = sqrt ((x2 - x1)\<^sup>2 + (y2 - y1)\<^sup>2)"

datatype py_error = IndexError | ZeroDivisionError

definition py_index :: "'a list \<Rightarrow> int \<Rightarrow> py_error + 'a" where
  \<comment> \<open>Python \<open>xs[i]\<close>: an index below zero counts back from the end of the list, and an
      index outside \<open>[-len, len)\<close> raises.\<close>
  "py_index xs i =
     (if 0 \<le> i \<and> i < int (length xs) then Inr (xs ! nat i)
      else if i < 0 \<and> - int (length xs) \<le> i then Inr (xs ! nat (int (length xs) + i))
      else Inl IndexError)"

section \<open>The grid\<close>

type_synonym grid = "string list"

definition MAP :: grid where
  "MAP =
    [''########################################'',
     ''#......................................#'',
     ''#...###LLL#............................#'',
     ''#...#C...#............................P#'',
     ''#...#....D.........................#####'',
     ''#...######...........................###'',
     ''#....P...P............................##'',
     ''#....####...........................####'',
     ''#....#..#.............................##'',
     ''#....#C.#....###......................##'',
     ''#....####....#C#......................##'',
     ''#............###.....................###'',
     ''#...P................................P##'',
     ''#...#...#...#...#.....................##'',
     ''#......................................#'',
     ''########################################'']"

definition FOV :: real where
  "FOV = 70"

definition DEPTH :: real where
  "DEPTH = 16"

definition step_size :: real where
  "step_size = 0.02"

definition tile_at :: "grid \<Rightarrow> int \<Rightarrow> int \<Rightarrow> py_error + char" where
  \<comment> \<open>\<open>MAP[y][x]\<close>\<close>
  "tile_at g y x = (case py_index g y of Inl e \<Rightarrow> Inl e | Inr row \<Rightarrow> py_index row x)"

definition map_width :: "grid \<Rightarrow> py_error + int" where
  \<comment> \<open>\<open>len(MAP[0])\<close>\<close>
  "map_width g = (case py_index g 0 of Inl e \<Rightarrow> Inl e | Inr row \<Rightarrow> Inr (int (length row)))"

definition map_height :: "grid \<Rightarrow> int" where
  \<comment> \<open>\<open>len(MAP)\<close>\<close>
  "map_height g = int (length g)"

section \<open>The ray marcher\<close>

text \<open>
  The variables that the ray loop of \<open>main\<close> reads and writes, and that the projection
  reads after the loop.
\<close>

record ray_state =
  distance_to_wall :: real
  hit_wall :: bool
  hit_lower_wall :: bool
  hit_pillar :: bool
  hit_corner :: bool
  boundary :: bool
  wall_orientation :: int
  adjacent_walls :: "(int \<times> int) list"

definition ray_init :: ray_state where
  "ray_init = \<lparr>distance_to_wall = 0, hit_wall = False, hit_lower_wall = False,
     hit_pillar = False, hit_corner = False, boundary = False, wall_orientation = 0,
     adjacent_walls = []\<rparr>"

definition face_orientation :: "real \<Rightarrow> real \<Rightarrow> int \<Rightarrow> int" where
  \<comment> \<open>The \<open>if\<close>/\<open>elif\<close> chain on \<open>test_x\<close>, \<open>test_y\<close>; the last argument is the
      value \<open>wall_orientation\<close> keeps when no branch is taken.\<close>
  "face_orientation test_x test_y old =
     (if test_x < 0.02 then 0
      else if test_x > 0.98 then 0
      else if test_y < 0.02 then 1
      else if test_y > 0.98 then 1
      else old)"

definition on_edge :: "real \<Rightarrow> real \<Rightarrow> bool" where
  "on_edge test_x test_y \<longleftrightarrow>
     test_x < 0.02 \<or> test_x > 0.98 \<or> test_y < 0.02 \<or> test_y > 0.98"

fun count_adjacent ::
  "grid \<Rightarrow> int \<Rightarrow> int \<Rightarrow> (int \<times> int) list \<Rightarrow> int \<Rightarrow> (int \<times> int) list
    \<Rightarrow> py_error + (int \<times> (int \<times> int) list)" where
  "count_adjacent g map_x map_y [] adjacent_count adj = Inr (adjacent_count, adj)"
| "count_adjacent g map_x map_y ((dx, dy) # ds) adjacent_count adj =
     (let nx = map_x + dx; ny = map_y + dy in
      if 0 \<le> ny \<and> ny < map_height g \<and> 0 \<le> nx then
        (case map_width g of
           Inl e \<Rightarrow> Inl e
         | Inr w \<Rightarrow>
            if nx < w then
              (case tile_at g ny nx of
                 Inl e \<Rightarrow> Inl e
               | Inr c \<Rightarrow>
                  if c = CHR ''#''
                  then count_adjacent g map_x map_y ds (adjacent_count + 1) (adj @ [(dx, dy)])
                  else count_adjacent g map_x map_y ds adjacent_count adj)
            else count_adjacent g map_x map_y ds adjacent_count adj)
      else count_adjacent g map_x map_y ds adjacent_count adj)"

definition neighbours :: "(int \<times> int) list" where
  "neighbours = [(0, 1), (1, 0), (0, - 1), (- 1, 0)]"

definition hit_tile ::
  "grid \<Rightarrow> char \<Rightarrow> real \<Rightarrow> real \<Rightarrow> int \<Rightarrow> int \<Rightarrow> ray_state \<Rightarrow> py_error + ray_state" where
  \<comment> \<open>The branches on \<open>MAP[map_y][map_x]\<close> for a cell inside the grid; the state
      already holds the advanced distance.\<close>
  "hit_tile g c ray_x ray_y map_x map_y r =
     (if c = CHR ''#'' then
        (let test_x = ray_x - of_int map_x; test_y = ray_y - of_int map_y;
             r1 = r\<lparr>hit_wall := True,
                    wall_orientation := face_orientation test_x test_y (wall_orientation r),
                    boundary := (boundary r \<or> on_edge test_x test_y)\<rparr>
         in case count_adjacent g map_x map_y neighbours 0 (adjacent_walls r) of
              Inl e \<Rightarrow> Inl e
            | Inr (adjacent_count, adj) \<Rightarrow>
                Inr (r1\<lparr>adjacent_walls := adj,
                        hit_corner := (hit_corner r \<or> adjacent_count \<ge> 3)\<rparr>))
      else if c = CHR ''L'' then
        (let test_x = ray_x - of_int map_x; test_y = ray_y - of_int map_y
         in Inr (r\<lparr>hit_lower_wall := True, hit_wall := True,
                   wall_orientation := face_orientation test_x test_y (wall_orientation r),
                   boundary := (boundary r \<or> on_edge test_x test_y)\<rparr>))
      else if c = CHR ''P'' then
        Inr (r\<lparr>hit_pillar := True, hit_wall := True, boundary := True\<rparr>)
      else if c = CHR ''C'' then
        Inr (r\<lparr>hit_corner := True, hit_wall := True, boundary := True\<rparr>)
      else Inr r)"

definition ray_step ::
  "grid \<Rightarrow> real \<Rightarrow> real \<Rightarrow> real \<Rightarrow> real \<Rightarrow> ray_state \<Rightarrow> py_error + ray_state" where
  \<comment> \<open>One pass through the body of the \<open>while\<close> loop.\<close>
  "ray_step g player_x player_y ray_angle_rad depth r =
     (let d = distance_to_wall r + step_size;
          ray_x = player_x + cos ray_angle_rad * d;
          ray_y = player_y + sin ray_angle_rad * d;
          map_x = py_int ray_x;
          map_y = py_int ray_y
      in if map_x < 0 \<or> map_y < 0 then Inr (r\<lparr>hit_wall := True, distance_to_wall := depth\<rparr>)
         else
           (case map_width g of
              Inl e \<Rightarrow> Inl e
            | Inr w \<Rightarrow>
               if map_x \<ge> w \<or> map_y \<ge> map_height g
               then Inr (r\<lparr>hit_wall := True, distance_to_wall := depth\<rparr>)
               else
                 (case tile_at g map_y map_x of
                    Inl e \<Rightarrow> Inl e
                  | Inr c \<Rightarrow>
                     hit_tile g c ray_x ray_y map_x map_y (r\<lparr>distance_to_wall := d\<rparr>))))"

text \<open>
  The loop \<open>while not hit_wall and distance_to_wall < DEPTH\<close>. Every pass that does not
  set \<open>hit_wall\<close> adds \<open>step_size\<close> to the distance, which bounds the number of passes.
\<close>

function march ::
  "grid \<Rightarrow> real \<Rightarrow> real \<Rightarrow> real \<Rightarrow> real \<Rightarrow> ray_state \<Rightarrow> py_error + ray_state" where
  "march g player_x player_y ray_angle_rad depth r =
     (if \<not> hit_wall r \<and> distance_to_wall r < depth then
        (case ray_step g player_x player_y ray_angle_rad depth r of
           Inl e \<Rightarrow> Inl e
         | Inr r' \<Rightarrow> march g player_x player_y ray_angle_rad depth r')
      else Inr r)"
  by pat_completeness auto

lemma hit_tile_progress:
  "hit_tile g c rx ry mx my r = Inr r' \<Longrightarrow>
     hit_wall r' \<or> (distance_to_wall r' = distance_to_wall r \<and> hit_wall r' = hit_wall r)"
  by (auto simp: hit_tile_def Let_def split: if_splits sum.splits prod.splits)

lemma ray_step_progress:
  "ray_step g px py ra depth r = Inr r' \<Longrightarrow>
     hit_wall r' \<or> distance_to_wall r' = distance_to_wall r + step_size"
  by (auto simp: ray_step_def Let_def split: if_splits sum.splits dest!: hit_tile_progress)

lemma steps_left_decreases:
  fixes d depth :: real
  assumes "d < depth"
  shows "nat \<lceil>(depth - (d + step_size)) / step_size\<rceil> < nat \<lceil>(depth - d) / step_size\<rceil>"
proof -
  have "(depth - (d + step_size)) / step_size = (depth - d) / step_size - 1"
    by (simp add: step_size_def field_simps)
  then have "\<lceil>(depth - (d + step_size)) / step_size\<rceil> = \<lceil>(depth - d) / step_size\<rceil> - 1"
    by simp
  moreover have "0 < (depth - d) / step_size"
    using assms by (simp add: step_size_def)
  then have "0 < \<lceil>(depth - d) / step_size\<rceil>"
    by simp
  ultimately show ?thesis by simp
qed

termination march
proof (relation "measure (\<lambda>(g, px, py, ra, depth, r).
          if hit_wall r then 0 else Suc (nat \<lceil>(depth - distance_to_wall r) / step_size\<rceil>))")
  show "wf (measure (\<lambda>(g, px, py, ra, depth, r).
          if hit_wall r then 0 else Suc (nat \<lceil>(depth - distance_to_wall r) / step_size\<rceil>)))"
    by simp
next
  fix g :: grid and px py ra depth :: real and r r' :: ray_state
  assume guard: "\<not> hit_wall r \<and> distance_to_wall r < depth"
    and step: "ray_step g px py ra depth r = Inr r'"
  from ray_step_progress [OF step]
  show "((g, px, py, ra, depth, r'), (g, px, py, ra, depth, r))
          \<in> measure (\<lambda>(g, px, py, ra, depth, r).
              if hit_wall r then 0 else Suc (nat \<lceil>(depth - distance_to_wall r) / step_size\<rceil>))"
    using guard steps_left_decreases [of "distance_to_wall r" depth] by auto
qed

declare march.simps [simp del]

definition cast_ray :: "grid \<Rightarrow> real \<Rightarrow> real \<Rightarrow> real \<Rightarrow> real \<Rightarrow> py_error + ray_state" where
  \<comment> \<open>The ray of one column: the loop variables are initialised, the angle is
      converted with \<open>math.radians\<close>, the loop runs.\<close>
  "cast_ray g player_x player_y ray_angle depth =
     march g player_x player_y (radians ray_angle) depth ray_init"

section \<open>The column projection\<close>

definition ray_angle_of :: "real \<Rightarrow> int \<Rightarrow> int \<Rightarrow> real" where
  \<comment> \<open>\<open>ray_angle\<close> of column \<open>x\<close> on a terminal \<open>width\<close> columns wide\<close>
  "ray_angle_of player_angle x width =
     (player_angle - FOV / 2) + (of_int x / of_int (min width 1000) * FOV)"

definition fisheye_correction :: "real \<Rightarrow> real \<Rightarrow> real" where
  "fisheye_correction ray_angle player_angle = cos (radians (ray_angle - player_angle))"

definition project_column :: "int \<Rightarrow> real \<Rightarrow> bool \<Rightarrow> py_error + (int \<times> int)" where
  \<comment> \<open>The rows \<open>ceiling\<close> and \<open>floor\<close> of a column, clamped; a float division by
      zero raises.\<close>
  "project_column view_height corrected_distance lower =
     (if corrected_distance = 0 then Inl ZeroDivisionError
      else
        (let ceiling_row =
               (if lower
                then py_int (of_int view_height / 2.0
                       - (of_int view_height / corrected_distance) * 0.5)
                else py_int (of_int view_height / 2.0 - of_int view_height / corrected_distance));
             floor_row =
               (if lower
                then py_int (of_int view_height / 2.0
                       + (of_int view_height / corrected_distance) * 0.5)
                else py_int (of_int view_height / 2.0 + of_int view_height / corrected_distance))
         in Inr (max 0 ceiling_row, min (view_height - 1) floor_row)))"

definition cast_column ::
  "grid \<Rightarrow> real \<Rightarrow> real \<Rightarrow> real \<Rightarrow> int \<Rightarrow> int \<Rightarrow> int
    \<Rightarrow> py_error + (ray_state \<times> real \<times> int \<times> int)" where
  \<comment> \<open>Column \<open>x\<close> up to the clamped \<open>ceiling\<close> and \<open>floor\<close>: the ray, its corrected
      distance, the span.\<close>
  "cast_column g player_x player_y player_angle view_height width x =
     (let ray_angle = ray_angle_of player_angle x width in
      case cast_ray g player_x player_y ray_angle DEPTH of
        Inl e \<Rightarrow> Inl e
      | Inr r \<Rightarrow>
         (let corrected_distance =
                distance_to_wall r * fisheye_correction ray_angle player_angle
          in case project_column view_height corrected_distance (hit_lower_wall r) of
               Inl e \<Rightarrow> Inl e
             | Inr (ceiling_row, floor_row) \<Rightarrow>
                 Inr (r, corrected_distance, ceiling_row, floor_row)))"

section \<open>The game state\<close>

record enemy =
  enemy_x :: int
  enemy_y :: int
  alive :: bool
  enemy_type :: int

definition ENEMIES :: "enemy list" where
  "ENEMIES =
    [\<lparr>enemy_x = 5, enemy_y = 3, alive = True, enemy_type = 0\<rparr>,
     \<lparr>enemy_x = 10, enemy_y = 5, alive = True, enemy_type = 0\<rparr>,
     \<lparr>enemy_x = 8, enemy_y = 8, alive = True, enemy_type = 1\<rparr>,
     \<lparr>enemy_x = 15, enemy_y = 7, alive = True, enemy_type = 0\<rparr>,
     \<lparr>enemy_x = 12, enemy_y = 10, alive = True, enemy_type = 2\<rparr>,
     \<lparr>enemy_x = 18, enemy_y = 8, alive = True, enemy_type = 1\<rparr>,
     \<lparr>enemy_x = 20, enemy_y = 12, alive = True, enemy_type = 0\<rparr>]"

text \<open>
  The variables of \<open>main\<close> that the key handling and the weapon drawing write, with the
  global enemy list. \<open>rng_pos\<close> counts the calls of \<open>random.random()\<close> made so far; the
  numbers it returns are a parameter \<open>rng\<close> of the model, call \<open>k\<close> returning \<open>rng k\<close>.
\<close>

record game =
  player_x :: real
  player_y :: real
  player_angle :: real
  player_health :: int
  ammo :: int
  score :: int
  shooting :: bool
  shot_timer :: int
  running :: bool
  enemies :: "enemy list"
  rng_pos :: nat

definition move_step :: real where
  "move_step = 0.3"

definition turn_step :: real where
  "turn_step = 3.0"

definition init_game :: game where
  "init_game = \<lparr>player_x = 2.0, player_y = 2.0, player_angle = 0, player_health = 100,
     ammo = 50, score = 0, shooting = False, shot_timer = 0, running = True,
     enemies = ENEMIES, rng_pos = 0\<rparr>"

section \<open>Movement\<close>

definition try_move :: "grid \<Rightarrow> real \<Rightarrow> real \<Rightarrow> game \<Rightarrow> py_error + game" where
  \<comment> \<open>The test that follows the computation of \<open>new_x\<close>, \<open>new_y\<close> in each of the four
      movement branches, and the assignment it guards.\<close>
  "try_move g new_x new_y s =
     (if 0 \<le> py_int new_y \<and> py_int new_y < map_height g \<and> 0 \<le> py_int new_x then
        (case map_width g of
           Inl e \<Rightarrow> Inl e
         | Inr w \<Rightarrow>
            if py_int new_x < w then
              (case tile_at g (py_int new_y) (py_int new_x) of
                 Inl e \<Rightarrow> Inl e
               | Inr c \<Rightarrow>
                  if c \<notin> set [CHR ''#'', CHR ''P'']
                  then Inr (s\<lparr>player_x := new_x, player_y := new_y\<rparr>)
                  else Inr s)
            else Inr s)
      else Inr s)"

section \<open>Combat\<close>

definition angle_diff :: "real \<Rightarrow> real \<Rightarrow> real \<Rightarrow> enemy \<Rightarrow> real" where
  "angle_diff px py pa e =
     (let angle_to_enemy = degrees (atan2 (of_int (enemy_y e) - py) (of_int (enemy_x e) - px))
      in py_mod (angle_to_enemy - pa + 180) 360 - 180)"

definition enemy_dist :: "real \<Rightarrow> real \<Rightarrow> enemy \<Rightarrow> real" where
  "enemy_dist px py e = distance px py (of_int (enemy_x e)) (of_int (enemy_y e))"

definition in_sights :: "real \<Rightarrow> real \<Rightarrow> real \<Rightarrow> enemy \<Rightarrow> bool" where
  \<comment> \<open>\<open>abs(angle_diff) < FOV / 2 and dist < DEPTH\<close>\<close>
  "in_sights px py pa e \<longleftrightarrow> \<bar>angle_diff px py pa e\<bar> < FOV / 2 \<and> enemy_dist px py e < DEPTH"

definition hit_chance :: "real \<Rightarrow> int \<Rightarrow> real" where
  "hit_chance d ty =
     (1.0 - (d / DEPTH) * 0.8) * (if ty = 0 then 1.0 else (if ty = 1 then 0.7 else 0.5))"

fun scan_enemies ::
  "(nat \<Rightarrow> real) \<Rightarrow> real \<Rightarrow> real \<Rightarrow> real \<Rightarrow> enemy list \<Rightarrow> int \<Rightarrow> nat
    \<Rightarrow> enemy list \<times> int \<times> nat" where
  "scan_enemies rng px py pa [] sc k = ([], sc, k)"
| "scan_enemies rng px py pa (e # es) sc k =
     (if alive e then
        (if in_sights px py pa e then
           (if rng k < hit_chance (enemy_dist px py e) (enemy_type e)
            then (e\<lparr>alive := False\<rparr> # es, sc + 100 * (enemy_type e + 1), Suc k)
            else (case scan_enemies rng px py pa es sc (Suc k) of
                    (es', sc', k') \<Rightarrow> (e # es', sc', k')))
         else (case scan_enemies rng px py pa es sc k of
                 (es', sc', k') \<Rightarrow> (e # es', sc', k')))
      else (case scan_enemies rng px py pa es sc k of
              (es', sc', k') \<Rightarrow> (e # es', sc', k')))"

definition shoot :: "(nat \<Rightarrow> real) \<Rightarrow> game \<Rightarrow> game" where
  \<comment> \<open>The branch of the space key.\<close>
  "shoot rng s =
     (if ammo s > 0 then
        (case scan_enemies rng (player_x s) (player_y s) (player_angle s) (enemies s)
                (score s) (rng_pos s) of
           (es', sc', k') \<Rightarrow>
             s\<lparr>ammo := ammo s - 1, shooting := True, shot_timer := 0,
               enemies := es', score := sc', rng_pos := k'\<rparr>)
      else s)"

section \<open>One frame\<close>

definition handle_key :: "grid \<Rightarrow> (nat \<Rightarrow> real) \<Rightarrow> int \<Rightarrow> game \<Rightarrow> py_error + game" where
  \<comment> \<open>The dispatch on \<open>key\<close>; the numbers are \<open>ord('x')\<close>, \<open>ord('w')\<close>, \<open>ord('s')\<close>,
      \<open>ord('a')\<close>, \<open>ord('d')\<close>, \<open>ord('q')\<close>, \<open>ord('e')\<close>, \<open>ord(' ')\<close>.\<close>
  "handle_key g rng key s =
     (if key = - 1 then Inr s
      else if key = 120 then Inr (s\<lparr>running := False\<rparr>)
      else if key = 119 then
        try_move g (player_x s + cos (radians (player_angle s)) * move_step)
                   (player_y s + sin (radians (player_angle s)) * move_step) s
      else if key = 115 then
        try_move g (player_x s - cos (radians (player_angle s)) * move_step)
                   (player_y s - sin (radians (player_angle s)) * move_step) s
      else if key = 97 then
        try_move g (player_x s + cos (radians (player_angle s - 90)) * move_step)
                   (player_y s + sin (radians (player_angle s - 90)) * move_step) s
      else if key = 100 then
        try_move g (player_x s + cos (radians (player_angle s + 90)) * move_step)
                   (player_y s + sin (radians (player_angle s + 90)) * move_step) s
      else if key = 113 then Inr (s\<lparr>player_angle := py_mod (player_angle s - turn_step) 360\<rparr>)
      else if key = 101 then Inr (s\<lparr>player_angle := py_mod (player_angle s + turn_step) 360\<rparr>)
      else if key = 32 then Inr (shoot rng s)
      else Inr s)"

definition draw_weapon :: "int \<Rightarrow> game \<Rightarrow> game" where
  \<comment> \<open>What drawing a frame writes to the state: the muzzle-flash timer, when the
      terminal is more than 8 rows high. The rest of the drawing reads the state only.\<close>
  "draw_weapon height s =
     (if height > 8 then
        (if shooting s \<and> shot_timer s < 3 then s\<lparr>shot_timer := shot_timer s + 1\<rparr>
         else s\<lparr>shooting := False, shot_timer := 0\<rparr>)
      else s)"

definition frame :: "grid \<Rightarrow> (nat \<Rightarrow> real) \<Rightarrow> int \<times> int \<Rightarrow> game \<Rightarrow> py_error + game" where
  \<comment> \<open>One pass through the game loop with the key read and the terminal height.\<close>
  "frame g rng inp s =
     (case handle_key g rng (fst inp) s of
        Inl e \<Rightarrow> Inl e
      | Inr s' \<Rightarrow> Inr (draw_weapon (snd inp) s'))"

fun run :: "grid \<Rightarrow> (nat \<Rightarrow> real) \<Rightarrow> (int \<times> int) list \<Rightarrow> game \<Rightarrow> py_error + game" where
  "run g rng [] s = Inr s"
| "run g rng (inp # inps) s =
     (if running s then
        (case frame g rng inp s of
           Inl e \<Rightarrow> Inl e
         | Inr s' \<Rightarrow> run g rng inps s')
      else Inr s)"

section \<open>Vocabulary of the statements\<close>

text \<open>
  The statements below are about grids that are not empty and whose rows all have the
  length of the first row; on any other grid an index can raise \<open>IndexError\<close>. A cell
  \<open>(x, y)\<close> is a column and a row; \<open>tile\<close> reads it and is used for cells inside the grid
  only.
\<close>

definition rect_grid :: "grid \<Rightarrow> bool" where
  "rect_grid g \<longleftrightarrow> g \<noteq> [] \<and> list_all (\<lambda>row. length row = length (hd g)) g"

definition grid_width :: "grid \<Rightarrow> int" where
  "grid_width g = int (length (hd g))"

definition in_grid :: "grid \<Rightarrow> int \<Rightarrow> int \<Rightarrow> bool" where
  "in_grid g x y \<longleftrightarrow> 0 \<le> x \<and> x < grid_width g \<and> 0 \<le> y \<and> y < map_height g"

definition tile :: "grid \<Rightarrow> int \<Rightarrow> int \<Rightarrow> char" where
  "tile g x y = g ! nat y ! nat x"

text \<open>
  The candidate position \<open>(new_x, new_y)\<close> that the branch of a movement key computes
  (\<open>w\<close> 119, \<open>s\<close> 115, \<open>a\<close> 97, \<open>d\<close> 100), and its integer cell.
\<close>

definition destination :: "int \<Rightarrow> game \<Rightarrow> real \<times> real" where
  "destination key s =
     (if key = 119 then
        (player_x s + cos (radians (player_angle s)) * move_step,
         player_y s + sin (radians (player_angle s)) * move_step)
      else if key = 115 then
        (player_x s - cos (radians (player_angle s)) * move_step,
         player_y s - sin (radians (player_angle s)) * move_step)
      else if key = 97 then
        (player_x s + cos (radians (player_angle s - 90)) * move_step,
         player_y s + sin (radians (player_angle s - 90)) * move_step)
      else
        (player_x s + cos (radians (player_angle s + 90)) * move_step,
         player_y s + sin (radians (player_angle s + 90)) * move_step))"

definition dest_cell :: "int \<Rightarrow> game \<Rightarrow> int \<times> int" where
  "dest_cell key s = (py_int (fst (destination key s)), py_int (snd (destination key s)))"

text \<open>
  Combat. An enemy is a valid target of a shot when it is alive, the angle between the
  facing direction and its direction is below \<open>FOV / 2\<close>, and its Euclidean distance is below
  \<open>DEPTH\<close>; both quantities are written out here in geometric terms, apart from the
  program's \<open>atan2\<close> and modulo arithmetic. The draws are numbered in the order the scan
  makes them, so the draw for the enemy at index \<open>i\<close> is the one after the draws of the
  valid targets before it. \<open>class_factor\<close> is the factor of the classes Normal (0),
  Fast (1) and Strong (2).
\<close>

definition class_factor :: "int \<Rightarrow> real" where
  "class_factor rank = (if rank = 0 then 1.0 else if rank = 1 then 0.7 else 0.5)"

definition bearing :: "real \<Rightarrow> real \<Rightarrow> enemy \<Rightarrow> real \<times> real" where
  \<comment> \<open>The unit vector from the player to the enemy; an enemy on the player's own position
      is taken to lie along the positive \<open>x\<close> axis, the direction of angle \<open>0\<close>.\<close>
  "bearing px py e =
     (let dx = of_int (enemy_x e) - px; dy = of_int (enemy_y e) - py
      in if dx = 0 \<and> dy = 0 then (1, 0)
         else (dx / sqrt (dx\<^sup>2 + dy\<^sup>2), dy / sqrt (dx\<^sup>2 + dy\<^sup>2)))"

definition deviation :: "real \<Rightarrow> real \<Rightarrow> real \<Rightarrow> enemy \<Rightarrow> real" where
  \<comment> \<open>The angle in degrees, between \<open>0\<close> and \<open>180\<close>, that separates the facing direction
      \<open>(cos pa, sin pa)\<close> from the direction of the enemy: the arc cosine of their scalar
      product.\<close>
  "deviation px py pa e =
     arccos (fst (bearing px py e) * cos (pa * pi / 180)
             + snd (bearing px py e) * sin (pa * pi / 180)) * 180 / pi"

definition separation :: "real \<Rightarrow> real \<Rightarrow> enemy \<Rightarrow> real" where
  \<comment> \<open>The Euclidean distance from the player to the enemy.\<close>
  "separation px py e = sqrt ((of_int (enemy_x e) - px)\<^sup>2 + (of_int (enemy_y e) - py)\<^sup>2)"

definition valid_target :: "real \<Rightarrow> real \<Rightarrow> real \<Rightarrow> enemy \<Rightarrow> bool" where
  "valid_target px py pa e \<longleftrightarrow>
     alive e \<and> deviation px py pa e < FOV / 2 \<and> separation px py e < DEPTH"

definition draws_before :: "real \<Rightarrow> real \<Rightarrow> real \<Rightarrow> enemy list \<Rightarrow> nat \<Rightarrow> nat" where
  "draws_before px py pa es i = length (filter (valid_target px py pa) (take i es))"

definition draw_succeeds ::
  "(nat \<Rightarrow> real) \<Rightarrow> nat \<Rightarrow> real \<Rightarrow> real \<Rightarrow> real \<Rightarrow> enemy list \<Rightarrow> nat \<Rightarrow> bool" where
  "draw_succeeds rng k px py pa es i \<longleftrightarrow>
     valid_target px py pa (es ! i)
     \<and> rng (k + draws_before px py pa es i)
         < (1 - (separation px py (es ! i) / DEPTH) * 0.8) * class_factor (enemy_type (es ! i))"

definition first_success ::
  "(nat \<Rightarrow> real) \<Rightarrow> nat \<Rightarrow> real \<Rightarrow> real \<Rightarrow> real \<Rightarrow> enemy list \<Rightarrow> nat \<Rightarrow> bool" where
  "first_success rng k px py pa es i \<longleftrightarrow>
     i < length es \<and> draw_succeeds rng k px py pa es i
     \<and> (\<forall>j<i. \<not> draw_succeeds rng k px py pa es j)"

text \<open>
  The enemy list of a later state against an earlier one: the same length, the same
  position and class at every index, and no flag that went from dead to alive.
  \<open>ranked\<close> lists hold the three classes only, as \<open>ENEMIES\<close> does.
\<close>

definition ranked :: "enemy list \<Rightarrow> bool" where
  "ranked es \<longleftrightarrow> list_all (\<lambda>e. enemy_type e = 0 \<or> enemy_type e = 1 \<or> enemy_type e = 2) es"

definition enemies_fade :: "enemy list \<Rightarrow> enemy list \<Rightarrow> bool" where
  "enemies_fade es es' \<longleftrightarrow>
     length es' = length es
     \<and> (\<forall>i<length es.
           enemy_x (es' ! i) = enemy_x (es ! i) \<and> enemy_y (es' ! i) = enemy_y (es ! i)
         \<and> enemy_type (es' ! i) = enemy_type (es ! i)
         \<and> (alive (es' ! i) \<longrightarrow> alive (es ! i)))"

definition steady :: "game \<Rightarrow> game \<Rightarrow> bool" where
  "steady s t \<longleftrightarrow>
     enemies_fade (enemies s) (enemies t)
     \<and> (0 \<le> ammo s \<longrightarrow> 0 \<le> ammo t)
     \<and> (ranked (enemies s) \<longrightarrow> score s \<le> score t)"

text \<open>
  The ray. Probe \<open>n\<close> is the point of the ray at distance \<open>n * step_size\<close> from the origin, the
  point that pass \<open>n\<close> of the loop computes; its cell is the truncated point. A tile stops
  the ray when it is one of \<open>#\<close>, \<open>L\<close>, \<open>P\<close>, \<open>C\<close>. \<open>clear_run \<dots> n\<close> says that the loop makes
  at least \<open>n\<close> passes and that none of the first \<open>n\<close> ends it: each of the probes \<open>1\<close> to
  \<open>n\<close> lies in the grid on a tile that does not stop the ray, and each was made while the
  distance before it was below the depth limit. The ray leaves the grid when the first
  probe that ends the loop lies outside the grid.
\<close>

definition probe :: "real \<Rightarrow> real \<Rightarrow> real \<Rightarrow> nat \<Rightarrow> real \<times> real" where
  "probe px py ra n =
     (px + cos ra * (of_nat n * step_size), py + sin ra * (of_nat n * step_size))"

definition probe_cell :: "real \<Rightarrow> real \<Rightarrow> real \<Rightarrow> nat \<Rightarrow> int \<times> int" where
  "probe_cell px py ra n = (py_int (fst (probe px py ra n)), py_int (snd (probe px py ra n)))"

definition probe_tile :: "grid \<Rightarrow> real \<Rightarrow> real \<Rightarrow> real \<Rightarrow> nat \<Rightarrow> char" where
  "probe_tile g px py ra n = tile g (fst (probe_cell px py ra n)) (snd (probe_cell px py ra n))"

definition probe_in_grid :: "grid \<Rightarrow> real \<Rightarrow> real \<Rightarrow> real \<Rightarrow> nat \<Rightarrow> bool" where
  "probe_in_grid g px py ra n \<longleftrightarrow>
     in_grid g (fst (probe_cell px py ra n)) (snd (probe_cell px py ra n))"

definition stops_ray :: "char \<Rightarrow> bool" where
  "stops_ray c \<longleftrightarrow> c = CHR ''#'' \<or> c = CHR ''L'' \<or> c = CHR ''P'' \<or> c = CHR ''C''"

definition passes :: "grid \<Rightarrow> real \<Rightarrow> real \<Rightarrow> real \<Rightarrow> nat \<Rightarrow> bool" where
  "passes g px py ra n \<longleftrightarrow>
     probe_in_grid g px py ra n \<and> \<not> stops_ray (probe_tile g px py ra n)"

definition clear_run :: "grid \<Rightarrow> real \<Rightarrow> real \<Rightarrow> real \<Rightarrow> real \<Rightarrow> nat \<Rightarrow> bool" where
  "clear_run g px py ra depth n \<longleftrightarrow>
     (\<forall>k. 1 \<le> k \<and> k \<le> n \<longrightarrow> passes g px py ra k)
     \<and> (\<forall>m<n. of_nat m * step_size < depth)"

definition wall_neighbours :: "grid \<Rightarrow> int \<Rightarrow> int \<Rightarrow> (int \<times> int) list" where
  "wall_neighbours g mx my =
     filter (\<lambda>(dx, dy). in_grid g (mx + dx) (my + dy) \<and> tile g (mx + dx) (my + dy) = CHR ''#'')
       neighbours"

definition leaves_grid :: "grid \<Rightarrow> real \<Rightarrow> real \<Rightarrow> real \<Rightarrow> real \<Rightarrow> bool" where
  "leaves_grid g px py ra depth \<longleftrightarrow>
     (\<exists>n. clear_run g px py ra depth n \<and> of_nat n * step_size < depth
          \<and> \<not> probe_in_grid g px py ra (Suc n))"

text \<open>
  The position of a probe inside its cell, the test against the edge tolerance, and the
  neighbours of a cell (among the four orthogonal ones) that lie in the grid and hold a
  wall.
\<close>

definition cell_frac_x :: "real \<Rightarrow> real \<Rightarrow> real \<Rightarrow> nat \<Rightarrow> real" where
  "cell_frac_x px py ra n = fst (probe px py ra n) - of_int (fst (probe_cell px py ra n))"

definition cell_frac_y :: "real \<Rightarrow> real \<Rightarrow> real \<Rightarrow> nat \<Rightarrow> real" where
  "cell_frac_y px py ra n = snd (probe px py ra n) - of_int (snd (probe_cell px py ra n))"

definition near_side :: "real \<Rightarrow> bool" where
  "near_side t \<longleftrightarrow> t < 0.02 \<or> t > 0.98"

section \<open>Evaluation and arithmetic helpers\<close>

lemmas grid_eval = tile_at_def map_width_def map_height_def py_index_def py_int_def
lemmas ray_eval = cast_ray_def march.simps ray_step_def hit_tile_def ray_init_def radians_def
  step_size_def face_orientation_def on_edge_def neighbours_def Let_def
lemmas column_eval = cast_column_def ray_angle_of_def FOV_def DEPTH_def fisheye_correction_def
  project_column_def

lemma py_int_mono: "x \<le> y \<Longrightarrow> py_int x \<le> py_int y"
proof -
  assume le: "x \<le> y"
  show ?thesis
  proof (cases "0 \<le> x")
    case True
    with le show ?thesis by (simp add: py_int_def floor_mono)
  next
    case False
    show ?thesis
    proof (cases "0 \<le> y")
      case True
      from False have "\<lceil>x\<rceil> \<le> 0" by (simp add: ceiling_le_iff)
      moreover from True have "0 \<le> \<lfloor>y\<rfloor>" by simp
      ultimately have "\<lceil>x\<rceil> \<le> \<lfloor>y\<rfloor>" by linarith
      then show ?thesis using False True by (simp add: py_int_def)
    next
      case y: False
      with False le show ?thesis by (simp add: py_int_def ceiling_mono)
    qed
  qed
qed

lemma py_int_nonpos: "x \<le> 0 \<Longrightarrow> py_int x \<le> 0"
  using py_int_mono [of x 0] by (simp add: py_int_def)

lemma py_int_ge_int: "of_int n \<le> x \<Longrightarrow> 0 \<le> n \<Longrightarrow> n \<le> py_int x"
  using py_int_mono [of "of_int n" x] by (simp add: py_int_def)

section \<open>C5: the span of a lower wall against a full wall\<close>

text \<open>
  On the program's map a player at \<open>(7.5, 1.9)\<close> facing \<open>90\<close> degrees stands next to the
  lower wall of cell \<open>(7, 2)\<close>, and a player at \<open>(6.5, 1.9)\<close> next to the full wall of cell
  \<open>(6, 2)\<close>. The centre column of an 80 column terminal (\<open>x = 40\<close>) meets both at the
  corrected distance \<open>0.1\<close>; with 22 view rows both columns are clamped to the rows
  \<open>0\<close> to \<open>21\<close>, so the span of the lower wall is not strictly smaller.
\<close>

theorem lower_wall_span_counterexample:
  "cast_column MAP 7.5 1.9 90 22 80 40 =
     Inr (\<lparr>distance_to_wall = 0.1, hit_wall = True, hit_lower_wall = True,
            hit_pillar = False, hit_corner = False, boundary = True,
            wall_orientation = 1, adjacent_walls = []\<rparr>, 0.1, 0, 21)
   \<and> cast_column MAP 6.5 1.9 90 22 80 40 =
     Inr (\<lparr>distance_to_wall = 0.1, hit_wall = True, hit_lower_wall = False,
            hit_pillar = False, hit_corner = False, boundary = True,
            wall_orientation = 1, adjacent_walls = [(- 1, 0)]\<rparr>, 0.1, 0, 21)
   \<and> \<not> ((21::int) - 0 < 21 - 0)"
  by (simp add: column_eval grid_eval ray_eval MAP_def)

text \<open>
  C5, as amended. At the same positive corrected distance the span \<open>floor - ceiling\<close> of
  the lower-wall formulas (factor \<open>0.5\<close>, clamps applied) is never larger than the span of
  the full-wall formulas; and when the corrected distance is at most \<open>1\<close>, as it is for a
  player adjacent to the wall, both are clamped to the whole view, rows \<open>0\<close> to
  \<open>view_height - 1\<close>, and the two spans are equal.
\<close>

theorem lower_wall_span_le:
  assumes cd: "0 < cd" and vh: "0 \<le> vh"
  shows "\<exists>c f c' f'.
           project_column vh cd True = Inr (c, f)
         \<and> project_column vh cd False = Inr (c', f')
         \<and> f - c \<le> f' - c'
         \<and> (cd \<le> 1 \<longrightarrow> c = 0 \<and> f = vh - 1 \<and> c' = 0 \<and> f' = vh - 1)"
proof -
  define h where "h = real_of_int vh / cd"
  define m where "m = real_of_int vh / 2"
  have h0: "0 \<le> h" using cd vh by (simp add: h_def)
  have c_le: "py_int (m - h) \<le> py_int (m - h * 0.5)"
    using h0 by (intro py_int_mono) simp
  have f_le: "py_int (m + h * 0.5) \<le> py_int (m + h)"
    using h0 by (intro py_int_mono) simp
  have lower: "project_column vh cd True =
      Inr (max 0 (py_int (m - h * 0.5)), min (vh - 1) (py_int (m + h * 0.5)))"
    using cd by (simp add: project_column_def h_def m_def)
  have full: "project_column vh cd False =
      Inr (max 0 (py_int (m - h)), min (vh - 1) (py_int (m + h)))"
    using cd by (simp add: project_column_def h_def m_def)
  have span: "min (vh - 1) (py_int (m + h * 0.5)) - max 0 (py_int (m - h * 0.5))
      \<le> min (vh - 1) (py_int (m + h)) - max 0 (py_int (m - h))"
    using c_le f_le by linarith
  have near: "max 0 (py_int (m - h * 0.5)) = 0 \<and> min (vh - 1) (py_int (m + h * 0.5)) = vh - 1
      \<and> max 0 (py_int (m - h)) = 0 \<and> min (vh - 1) (py_int (m + h)) = vh - 1" if "cd \<le> 1"
  proof -
    have "cd * real_of_int vh \<le> 1 * real_of_int vh"
      using vh that by (intro mult_right_mono) simp_all
    then have hv: "real_of_int vh \<le> h"
      using cd by (simp add: h_def field_simps)
    have "m - h * 0.5 \<le> 0" using hv by (simp add: m_def)
    then have c1: "py_int (m - h * 0.5) \<le> 0" by (rule py_int_nonpos)
    have "real_of_int vh \<le> m + h * 0.5" using hv by (simp add: m_def)
    then have f1: "vh \<le> py_int (m + h * 0.5)" using vh by (rule py_int_ge_int)
    from c1 c_le f1 f_le show ?thesis by linarith
  qed
  from lower full span near show ?thesis by auto
qed

theorem lower_wall_span_le_witness:
  "(0::real) < 0.1 \<and> (0::int) \<le> 22
   \<and> (\<exists>c f c' f'.
           project_column 22 0.1 True = Inr (c, f)
         \<and> project_column 22 0.1 False = Inr (c', f')
         \<and> f - c \<le> f' - c'
         \<and> (0.1 \<le> (1::real) \<longrightarrow> c = 0 \<and> f = 22 - 1 \<and> c' = 0 \<and> f' = 22 - 1))"
  using lower_wall_span_le [of "0.1" 22] by simp

section \<open>Rectangular grids\<close>

lemma rect_grid_MAP: "rect_grid MAP"
  by (simp add: rect_grid_def MAP_def)

text \<open>
  On a grid with a short row the same code raises: row 1 of the grid below has no column
  1, which row 0 has.
\<close>

lemma ragged_grid_raises:
  "try_move [''..'', ''.''] 1.5 1.5 s = Inl IndexError
   \<and> cast_ray [''..'', ''.''] 1.49 1.5 0 16 = Inl IndexError"
  by (simp add: try_move_def grid_eval ray_eval)

lemma map_width_rect: "rect_grid g \<Longrightarrow> map_width g = Inr (grid_width g)"
  by (cases g) (simp_all add: rect_grid_def map_width_def py_index_def grid_width_def)

lemma tile_at_rect:
  assumes "rect_grid g" and "in_grid g x y"
  shows "tile_at g y x = Inr (tile g x y)"
proof -
  from assms(2) have y: "0 \<le> y" "nat y < length g" and x: "0 \<le> x" "x < int (length (hd g))"
    by (auto simp: in_grid_def map_height_def grid_width_def)
  from assms(1) y have "length (g ! nat y) = length (hd g)"
    by (simp add: rect_grid_def list_all_length)
  with x y show ?thesis
    by (simp add: tile_at_def py_index_def tile_def)
qed

lemma try_move_rect:
  assumes "rect_grid g"
  shows "try_move g new_x new_y s =
           Inr (if in_grid g (py_int new_x) (py_int new_y)
                   \<and> tile g (py_int new_x) (py_int new_y) \<notin> {CHR ''#'', CHR ''P''}
                then s\<lparr>player_x := new_x, player_y := new_y\<rparr> else s)"
proof (cases "in_grid g (py_int new_x) (py_int new_y)")
  case True
  with assms show ?thesis
    by (simp add: try_move_def map_width_rect tile_at_rect) (simp add: in_grid_def)
next
  case False
  with assms show ?thesis
    by (auto simp: try_move_def map_width_rect in_grid_def)
qed

lemma destination_moves: "destination key s \<noteq> (player_x s, player_y s)"
proof -
  have nz: "\<not> (cos a * move_step = 0 \<and> sin a * move_step = 0)" for a :: real
  proof
    assume "cos a * move_step = 0 \<and> sin a * move_step = 0"
    then have "cos a = 0" and "sin a = 0" by (simp_all add: move_step_def)
    with sin_cos_squared_add [of a] show False by simp
  qed
  show ?thesis
    using nz [of "radians (player_angle s)"] nz [of "radians (player_angle s - 90)"]
      nz [of "radians (player_angle s + 90)"]
    by (auto simp: destination_def)
qed

lemmas game_eval = handle_key_def try_move_def init_game_def move_step_def radians_def

lemmas spec_eval = in_grid_def tile_def grid_width_def map_height_def dest_cell_def
  destination_def

section \<open>C3: when a translation is committed\<close>

text \<open>
  The player at \<open>(7.5, 1.9)\<close>, in the open cell \<open>(7, 1)\<close>, faces \<open>90\<close> degrees and presses
  \<open>w\<close>: the candidate position is \<open>(7.5, 2.2)\<close>, its cell \<open>(7, 2)\<close> holds the lower wall \<open>L\<close>,
  and the move is committed. The movement test refuses \<open>#\<close> and \<open>P\<close> only.
\<close>

theorem lower_wall_passable_counterexample:
  "tile_at MAP 1 7 = Inr CHR ''.'' \<and> tile_at MAP 2 7 = Inr CHR ''L''
   \<and> py_int 7.5 = 7 \<and> py_int 1.9 = 1 \<and> py_int 2.2 = 2
   \<and> handle_key MAP (\<lambda>k. 0) 119
         (init_game\<lparr>player_x := 7.5, player_y := 1.9, player_angle := 90\<rparr>)
       = Inr (init_game\<lparr>player_x := 7.5, player_y := 2.2, player_angle := 90\<rparr>)"
  by (simp add: game_eval grid_eval MAP_def)

text \<open>
  C3, as amended. For each of the four movement keys the candidate position is committed
  if and only if its truncated cell is inside the grid and holds neither a wall \<open>#\<close> nor
  a pillar \<open>P\<close>; every other tile (open, corner decoration, lower wall, door) is
  passable. A rejected move leaves the whole state, so the position, as it was; a
  committed move always changes the position.
\<close>

theorem movement_commit:
  assumes "rect_grid g" and "key \<in> {119, 115, 97, 100}"
  shows "handle_key g rng key s =
           Inr (if in_grid g (fst (dest_cell key s)) (snd (dest_cell key s))
                   \<and> tile g (fst (dest_cell key s)) (snd (dest_cell key s))
                        \<notin> {CHR ''#'', CHR ''P''}
                then s\<lparr>player_x := fst (destination key s), player_y := snd (destination key s)\<rparr>
                else s)
         \<and> s\<lparr>player_x := fst (destination key s), player_y := snd (destination key s)\<rparr> \<noteq> s"
proof -
  have "s\<lparr>player_x := fst (destination key s), player_y := snd (destination key s)\<rparr> \<noteq> s"
  proof
    assume eq: "s\<lparr>player_x := fst (destination key s), player_y := snd (destination key s)\<rparr> = s"
    from arg_cong [OF eq, of player_x] arg_cong [OF eq, of player_y]
    have "destination key s = (player_x s, player_y s)"
      by (simp add: prod_eq_iff)
    with destination_moves show False by blast
  qed
  moreover from assms(2) have "handle_key g rng key s =
      try_move g (fst (destination key s)) (snd (destination key s)) s"
    by (auto simp: handle_key_def destination_def)
  ultimately show ?thesis
    using assms(1) by (simp add: try_move_rect dest_cell_def)
qed

theorem movement_commit_witness:
  "rect_grid MAP \<and> (119::int) \<in> {119, 115, 97, 100}
   \<and> handle_key MAP (\<lambda>k. 0) 119 init_game
       = Inr (init_game\<lparr>player_x := 2.3, player_y := 2\<rparr>)"
proof -
  have key: "(119::int) \<in> {119, 115, 97, 100}" by simp
  from movement_commit [OF rect_grid_MAP key, of "\<lambda>k. 0" init_game]
  have "handle_key MAP (\<lambda>k. 0) 119 init_game
      = Inr (init_game\<lparr>player_x := 2.3, player_y := 2\<rparr>)"
    by (simp add: spec_eval py_int_def init_game_def move_step_def radians_def MAP_def)
  with rect_grid_MAP key show ?thesis by blast
qed

section \<open>The angle and the distance of a target\<close>

text \<open>
  The program measures the deviation as \<open>(degrees (atan2 dy dx) - player_angle + 180) % 360 - 180\<close>.
  Its absolute value is the angle between the two directions, and \<open>distance\<close> is the
  Euclidean distance.
\<close>

lemma inv_sqrt_ratio:
  fixes x y :: real
  assumes "x \<noteq> 0"
  shows "1 / sqrt (1 + (y / x)\<^sup>2) = \<bar>x\<bar> / sqrt (x\<^sup>2 + y\<^sup>2)"
proof -
  have "1 + (y / x)\<^sup>2 = (x\<^sup>2 + y\<^sup>2) / x\<^sup>2"
    using assms by (simp add: field_simps power2_eq_square)
  then have "sqrt (1 + (y / x)\<^sup>2) = sqrt (x\<^sup>2 + y\<^sup>2) / \<bar>x\<bar>"
    by (simp add: real_sqrt_divide)
  then show ?thesis by simp
qed

lemma cos_atan2:
  assumes "x \<noteq> 0 \<or> y \<noteq> 0"
  shows "cos (atan2 y x) = x / sqrt (x\<^sup>2 + y\<^sup>2)"
proof -
  consider "0 < x" | "x < 0" "0 \<le> y" | "x < 0" "y < 0" | "x = 0" "0 < y" | "x = 0" "y < 0"
    using assms by linarith
  then show ?thesis
  proof cases
    case 1
    then show ?thesis by (simp add: atan2_def cos_arctan inv_sqrt_ratio)
  next
    case 2
    then show ?thesis by (simp add: atan2_def cos_arctan inv_sqrt_ratio)
  next
    case 3
    then show ?thesis by (simp add: atan2_def cos_arctan inv_sqrt_ratio)
  next
    case 4
    then show ?thesis by (simp add: atan2_def)
  next
    case 5
    then show ?thesis by (simp add: atan2_def)
  qed
qed

lemma sin_atan2:
  assumes "x \<noteq> 0 \<or> y \<noteq> 0"
  shows "sin (atan2 y x) = y / sqrt (x\<^sup>2 + y\<^sup>2)"
proof -
  have s: "sin (arctan (y / x)) = (y / x) * (\<bar>x\<bar> / sqrt (x\<^sup>2 + y\<^sup>2))" if "x \<noteq> 0"
  proof -
    have "sin (arctan (y / x)) = (y / x) * (1 / sqrt (1 + (y / x)\<^sup>2))"
      by (simp add: sin_arctan)
    then show ?thesis by (simp only: inv_sqrt_ratio [OF that])
  qed
  consider "0 < x" | "x < 0" "0 \<le> y" | "x < 0" "y < 0" | "x = 0" "0 < y" | "x = 0" "y < 0"
    using assms by linarith
  then show ?thesis
  proof cases
    case 1
    then show ?thesis using s by (simp add: atan2_def)
  next
    case 2
    then show ?thesis using s by (simp add: atan2_def)
  next
    case 3
    then show ?thesis using s by (simp add: atan2_def)
  next
    case 4
    then show ?thesis by (simp add: atan2_def real_sqrt_abs)
  next
    case 5
    then show ?thesis by (simp add: atan2_def real_sqrt_abs)
  qed
qed

lemma bearing_atan2:
  "bearing px py e =
     (cos (atan2 (of_int (enemy_y e) - py) (of_int (enemy_x e) - px)),
      sin (atan2 (of_int (enemy_y e) - py) (of_int (enemy_x e) - px)))"
proof (cases "of_int (enemy_x e) - px = 0 \<and> of_int (enemy_y e) - py = 0")
  case True
  then show ?thesis by (simp add: bearing_def atan2_def)
next
  case False
  then have "of_int (enemy_x e) - px \<noteq> 0 \<or> of_int (enemy_y e) - py \<noteq> 0" by blast
  from cos_atan2 [OF this] sin_atan2 [OF this] False show ?thesis
    by (simp add: bearing_def Let_def)
qed

lemma py_mod_range: "0 \<le> py_mod a 360 \<and> py_mod a 360 < 360"
proof -
  have "of_int \<lfloor>a / 360\<rfloor> \<le> a / 360" "a / 360 < of_int \<lfloor>a / 360\<rfloor> + 1"
    by linarith+
  then show ?thesis by (simp add: py_mod_def field_simps)
qed

lemma cos_shift:
  "cos ((t - 360 * of_int k) * pi / 180) = cos (t * pi / 180)"
proof -
  have "(t - 360 * of_int k) * pi / 180 = t * pi / 180 - 2 * pi * of_int k"
    by (simp add: field_simps)
  then have "cos ((t - 360 * of_int k) * pi / 180) = cos (t * pi / 180 - 2 * pi * of_int k)"
    by (rule arg_cong)
  also have "\<dots> = cos (t * pi / 180)"
    unfolding cos_diff by (simp add: cos_int_2pin sin_int_2pin)
  finally show ?thesis .
qed

lemma angle_diff_deviation: "\<bar>angle_diff px py pa e\<bar> = deviation px py pa e"
proof -
  define th where "th = atan2 (of_int (enemy_y e) - py) (of_int (enemy_x e) - px)"
  define D where "D = degrees th - pa + 180"
  define a where "a = py_mod D 360 - 180"
  have a: "angle_diff px py pa e = a"
    by (simp add: angle_diff_def a_def D_def th_def Let_def)
  from py_mod_range [of D] have r: "- 180 \<le> a" "a < 180" by (simp_all add: a_def)
  have "a = (D - 180) - 360 * of_int \<lfloor>D / 360\<rfloor>" by (simp add: a_def py_mod_def)
  then have "cos (a * pi / 180) = cos ((D - 180) * pi / 180)" by (simp only: cos_shift)
  also have "(D - 180) * pi / 180 = th - pa * pi / 180"
    by (simp add: D_def degrees_def field_simps)
  finally have c: "cos (a * pi / 180) = cos th * cos (pa * pi / 180) + sin th * sin (pa * pi / 180)"
    by (simp add: cos_diff)
  have "cos (\<bar>a\<bar> * pi / 180) = cos (a * pi / 180)"
    by (cases "0 \<le> a") simp_all
  with c have c': "cos th * cos (pa * pi / 180) + sin th * sin (pa * pi / 180)
      = cos (\<bar>a\<bar> * pi / 180)" by simp
  have "0 \<le> \<bar>a\<bar> * pi / 180" by simp
  moreover have "\<bar>a\<bar> * pi / 180 \<le> pi"
  proof -
    from r have "\<bar>a\<bar> \<le> 180" by linarith
    then have "\<bar>a\<bar> * pi \<le> 180 * pi" by (intro mult_right_mono) simp_all
    then show ?thesis by simp
  qed
  ultimately have "arccos (cos (\<bar>a\<bar> * pi / 180)) = \<bar>a\<bar> * pi / 180" by (rule arccos_cos)
  then have "deviation px py pa e = \<bar>a\<bar>"
    by (simp add: deviation_def bearing_atan2 th_def [symmetric] c')
  with a show ?thesis by simp
qed

lemma separation_dist: "separation px py e = enemy_dist px py e"
  by (simp add: separation_def enemy_dist_def distance_def)

lemma valid_target_iff: "valid_target px py pa e \<longleftrightarrow> alive e \<and> in_sights px py pa e"
  by (simp add: valid_target_def in_sights_def angle_diff_deviation separation_dist)

lemma deviation_east:
  assumes "of_int (enemy_y e) = py" and "px < of_int (enemy_x e)" and "0 \<le> pa" and "pa \<le> 180"
  shows "deviation px py pa e = pa"
proof -
  from assms(1,2) have b: "bearing px py e = (1, 0)"
    by (simp add: bearing_def Let_def)
  have "0 \<le> pa * pi / 180" using assms(3) by simp
  moreover have "pa * pi / 180 \<le> pi"
  proof -
    from assms(4) have "pa * pi \<le> 180 * pi" by (intro mult_right_mono) simp_all
    then show ?thesis by simp
  qed
  ultimately have "arccos (cos (pa * pi / 180)) = pa * pi / 180" by (rule arccos_cos)
  then show ?thesis by (simp add: deviation_def b)
qed

lemma deviation_west:
  assumes "of_int (enemy_y e) = py" and "of_int (enemy_x e) < px" and "0 \<le> pa" and "pa \<le> 180"
  shows "deviation px py pa e = 180 - pa"
proof -
  from assms(2) have "(of_int (enemy_x e) - px) / (px - of_int (enemy_x e)) = - 1"
    by (simp add: divide_eq_eq)
  with assms(1,2) have b: "bearing px py e = (- 1, 0)"
    by (simp add: bearing_def Let_def)
  have "0 \<le> pa * pi / 180" using assms(3) by simp
  moreover have "pa * pi / 180 \<le> pi"
  proof -
    from assms(4) have "pa * pi \<le> 180 * pi" by (intro mult_right_mono) simp_all
    then show ?thesis by simp
  qed
  ultimately have "arccos (cos (pa * pi / 180)) = pa * pi / 180" by (rule arccos_cos)
  moreover have "arccos (- cos (pa * pi / 180)) = pi - arccos (cos (pa * pi / 180))"
    by (rule arccos_minus) simp_all
  ultimately have "arccos (- cos (pa * pi / 180)) = pi - pa * pi / 180" by simp
  then show ?thesis by (simp add: deviation_def b field_simps)
qed

section \<open>The scan of a shot\<close>

lemma draws_before_0: "draws_before px py pa es 0 = 0"
  by (simp add: draws_before_def)

lemma draws_before_Suc:
  "draws_before px py pa (e # es) (Suc i) =
     (if valid_target px py pa e then 1 else 0) + draws_before px py pa es i"
  by (simp add: draws_before_def)

lemma draw_succeeds_0:
  "draw_succeeds rng k px py pa (e # es) 0 \<longleftrightarrow>
     alive e \<and> in_sights px py pa e \<and> rng k < hit_chance (enemy_dist px py e) (enemy_type e)"
  by (auto simp: draw_succeeds_def draws_before_0 valid_target_iff separation_dist
      hit_chance_def class_factor_def)

lemma draw_succeeds_Suc:
  "draw_succeeds rng k px py pa (e # es) (Suc i) \<longleftrightarrow>
     draw_succeeds rng (if valid_target px py pa e then Suc k else k) px py pa es i"
  by (simp add: draw_succeeds_def draws_before_Suc)

lemma scan_enemies_miss:
  "(\<forall>i<length es. \<not> draw_succeeds rng k px py pa es i) \<Longrightarrow>
     scan_enemies rng px py pa es sc k = (es, sc, k + draws_before px py pa es (length es))"
proof (induction es arbitrary: k)
  case Nil
  show ?case by (simp add: draws_before_def)
next
  case (Cons e es)
  from Cons.prems have first: "\<not> draw_succeeds rng k px py pa (e # es) 0" by auto
  from Cons.prems
  have rest: "\<forall>i<length es.
      \<not> draw_succeeds rng (if valid_target px py pa e then Suc k else k) px py pa es i"
    using draw_succeeds_Suc [of rng k px py pa e es] by auto
  show ?case
  proof (cases "valid_target px py pa e")
    case True
    with rest have "scan_enemies rng px py pa es sc (Suc k)
        = (es, sc, Suc k + draws_before px py pa es (length es))"
      using Cons.IH [of "Suc k"] by simp
    with True first show ?thesis
      by (simp add: draw_succeeds_0 valid_target_iff draws_before_Suc)
  next
    case False
    with rest have "scan_enemies rng px py pa es sc k
        = (es, sc, k + draws_before px py pa es (length es))"
      using Cons.IH [of k] by simp
    with False show ?thesis
      by (auto simp: valid_target_iff draws_before_Suc)
  qed
qed

lemma scan_enemies_kill:
  "first_success rng k px py pa es i \<Longrightarrow>
     scan_enemies rng px py pa es sc k =
       (es[i := (es ! i)\<lparr>alive := False\<rparr>], sc + 100 * (enemy_type (es ! i) + 1),
        Suc (k + draws_before px py pa es i))"
proof (induction es arbitrary: k i)
  case Nil
  then show ?case by (simp add: first_success_def)
next
  case (Cons e es)
  show ?case
  proof (cases i)
    case 0
    with Cons.prems have "draw_succeeds rng k px py pa (e # es) 0"
      by (simp add: first_success_def)
    with 0 show ?thesis
      by (simp add: draw_succeeds_0 draws_before_0)
  next
    case (Suc i')
    let ?k = "if valid_target px py pa e then Suc k else k"
    from Cons.prems Suc have first: "\<not> draw_succeeds rng k px py pa (e # es) 0"
      by (auto simp: first_success_def)
    have "first_success rng ?k px py pa es i'"
      unfolding first_success_def
    proof (intro conjI allI impI)
      from Cons.prems Suc show "i' < length es" by (simp add: first_success_def)
      from Cons.prems Suc show "draw_succeeds rng ?k px py pa es i'"
        using draw_succeeds_Suc [of rng k px py pa e es i'] by (simp add: first_success_def)
    next
      fix j assume "j < i'"
      with Cons.prems Suc have "\<not> draw_succeeds rng k px py pa (e # es) (Suc j)"
        by (auto simp: first_success_def)
      then show "\<not> draw_succeeds rng ?k px py pa es j"
        using draw_succeeds_Suc [of rng k px py pa e es j] by simp
    qed
    then have IH: "scan_enemies rng px py pa es sc ?k =
       (es[i' := (es ! i')\<lparr>alive := False\<rparr>], sc + 100 * (enemy_type (es ! i') + 1),
        Suc (?k + draws_before px py pa es i'))"
      by (rule Cons.IH)
    show ?thesis
    proof (cases "valid_target px py pa e")
      case True
      with IH first Suc show ?thesis
        by (simp add: draw_succeeds_0 valid_target_iff draws_before_Suc)
    next
      case False
      with IH Suc show ?thesis
        by (auto simp: valid_target_iff draws_before_Suc)
    qed
  qed
qed

lemma first_success_cases:
  "(\<exists>i. first_success rng k px py pa es i) \<or> (\<forall>i<length es. \<not> draw_succeeds rng k px py pa es i)"
proof (cases "\<exists>i. i < length es \<and> draw_succeeds rng k px py pa es i")
  case True
  then obtain i where "i < length es \<and> draw_succeeds rng k px py pa es i"
    and "\<forall>j<i. \<not> (j < length es \<and> draw_succeeds rng k px py pa es j)"
    unfolding exists_least_iff [of "\<lambda>i. i < length es \<and> draw_succeeds rng k px py pa es i"]
    by blast
  then have "first_success rng k px py pa es i"
    by (auto simp: first_success_def)
  then show ?thesis by blast
next
  case False
  then show ?thesis by blast
qed

section \<open>What a run preserves\<close>

lemma enemies_fade_refl: "enemies_fade es es"
  by (simp add: enemies_fade_def)

lemma enemies_fade_trans: "enemies_fade es es' \<Longrightarrow> enemies_fade es' es'' \<Longrightarrow> enemies_fade es es''"
  by (simp add: enemies_fade_def)

lemma enemies_fade_kill: "enemies_fade es (es[i := (es ! i)\<lparr>alive := False\<rparr>])"
proof (cases "i < length es")
  case True
  then show ?thesis by (simp add: enemies_fade_def nth_list_update)
next
  case False
  then show ?thesis by (simp add: enemies_fade_def)
qed

lemma enemies_fade_ranked: "enemies_fade es es' \<Longrightarrow> ranked es \<Longrightarrow> ranked es'"
  by (simp add: enemies_fade_def ranked_def list_all_length)

lemma shoot_cases:
  "shoot rng s = s
   \<or> (0 < ammo s \<and> (\<exists>i k. i < length (enemies s) \<and>
         shoot rng s = s\<lparr>ammo := ammo s - 1, shooting := True, shot_timer := 0,
           enemies := (enemies s)[i := (enemies s ! i)\<lparr>alive := False\<rparr>],
           score := score s + 100 * (enemy_type (enemies s ! i) + 1), rng_pos := k\<rparr>))
   \<or> (0 < ammo s \<and> (\<exists>k.
         shoot rng s = s\<lparr>ammo := ammo s - 1, shooting := True, shot_timer := 0,
           enemies := enemies s, score := score s, rng_pos := k\<rparr>))"
proof (cases "0 < ammo s")
  case True
  from first_success_cases [of rng "rng_pos s" "player_x s" "player_y s" "player_angle s" "enemies s"]
  show ?thesis
  proof
    assume "\<exists>i. first_success rng (rng_pos s) (player_x s) (player_y s) (player_angle s) (enemies s) i"
    then obtain i where i: "first_success rng (rng_pos s) (player_x s) (player_y s) (player_angle s) (enemies s) i"
      by blast
    then have "i < length (enemies s)" by (simp add: first_success_def)
    with True i show ?thesis
      by (intro disjI2 disjI1) (auto simp: shoot_def scan_enemies_kill)
  next
    assume "\<forall>i<length (enemies s). \<not> draw_succeeds rng (rng_pos s) (player_x s) (player_y s)
                 (player_angle s) (enemies s) i"
    with True have "shoot rng s = s\<lparr>ammo := ammo s - 1, shooting := True, shot_timer := 0,
           enemies := enemies s, score := score s,
           rng_pos := rng_pos s + draws_before (player_x s) (player_y s) (player_angle s)
             (enemies s) (length (enemies s))\<rparr>"
      by (simp add: shoot_def scan_enemies_miss)
    with True show ?thesis by blast
  qed
next
  case False
  then show ?thesis by (simp add: shoot_def)
qed

lemma shoot_ammo: "ammo (shoot rng s) = (if 0 < ammo s then ammo s - 1 else ammo s)"
  by (simp add: shoot_def split: prod.splits)

lemma shoot_fade: "enemies_fade (enemies s) (enemies (shoot rng s))"
  using shoot_cases [of rng s] by (auto simp: enemies_fade_refl enemies_fade_kill)

lemma shoot_score:
  assumes "ranked (enemies s)"
  shows "score s \<le> score (shoot rng s)"
proof -
  have "0 \<le> enemy_type (enemies s ! i)" if "i < length (enemies s)" for i
    using assms that by (auto simp: ranked_def list_all_length)
  with shoot_cases [of rng s] show ?thesis by auto
qed

lemma steady_refl: "steady s s"
  by (simp add: steady_def enemies_fade_refl)

lemma steady_trans: "steady s t \<Longrightarrow> steady t u \<Longrightarrow> steady s u"
  unfolding steady_def
  using enemies_fade_trans enemies_fade_ranked by (metis order_trans)

lemma steady_shoot: "steady s (shoot rng s)"
  by (simp add: steady_def shoot_fade shoot_score shoot_ammo)

lemma try_move_steady: "try_move g nx ny s = Inr t \<Longrightarrow> steady s t"
  by (auto simp: try_move_def steady_def enemies_fade_refl split: if_splits sum.splits)

lemma steady_same:
  "enemies t = enemies s \<Longrightarrow> ammo t = ammo s \<Longrightarrow> score t = score s \<Longrightarrow> steady s t"
  by (simp add: steady_def enemies_fade_refl)

lemma handle_key_steady: "handle_key g rng key s = Inr t \<Longrightarrow> steady s t"
  by (auto simp: handle_key_def steady_refl steady_shoot steady_same
      split: if_splits dest: try_move_steady)

lemma draw_weapon_steady: "steady s (draw_weapon h s)"
  by (simp add: draw_weapon_def steady_def enemies_fade_refl)

lemma frame_steady: "frame g rng inp s = Inr t \<Longrightarrow> steady s t"
  by (auto simp: frame_def split: sum.splits
      intro: steady_trans [OF handle_key_steady draw_weapon_steady])

lemma run_steady: "run g rng inps s = Inr t \<Longrightarrow> steady s t"
proof (induction inps arbitrary: s)
  case Nil
  then show ?case by (simp add: steady_refl)
next
  case (Cons inp inps)
  show ?case
  proof (cases "running s")
    case True
    with Cons.prems obtain s' where f: "frame g rng inp s = Inr s'" and r: "run g rng inps s' = Inr t"
      by (auto split: sum.splits)
    from frame_steady [OF f] Cons.IH [OF r] show ?thesis by (rule steady_trans)
  next
    case False
    with Cons.prems show ?thesis by (simp add: steady_refl)
  qed
qed

lemma ranked_ENEMIES: "ranked ENEMIES"
  by (simp add: ranked_def ENEMIES_def)

lemmas combat_eval = valid_target_def separation_def deviation_east deviation_west FOV_def
  DEPTH_def class_factor_def draws_before_def

lemma kill_count:
  assumes "i < length es" and "alive (es ! i)"
  shows "Suc (length (filter alive (es[i := (es ! i)\<lparr>alive := False\<rparr>])))
         = length (filter alive es)"
proof -
  have u: "es[i := (es ! i)\<lparr>alive := False\<rparr>]
      = take i es @ (es ! i)\<lparr>alive := False\<rparr> # drop (Suc i) es"
    using assms(1) by (rule upd_conv_take_nth_drop)
  have e: "es = take i es @ es ! i # drop (Suc i) es"
    using assms(1) by (rule id_take_nth_drop)
  have "length (filter alive es)
      = length (filter alive (take i es @ es ! i # drop (Suc i) es))"
    using e by simp
  with assms(2) show ?thesis unfolding u by simp
qed

section \<open>C4: the resolution of a shot\<close>

text \<open>
  C4. A shot fired with \<open>ammo > 0\<close> scans the enemies in list order. An enemy is a valid
  target exactly when it is alive, the angle between the facing direction and the direction
  of the enemy (\<open>deviation\<close>) is below \<open>FOV / 2\<close>, and its Euclidean distance
  (\<open>separation\<close>) is below \<open>DEPTH\<close>; each valid target takes the next random draw,
  compared with \<open>(1 - (distance / DEPTH) * 0.8) * class_factor\<close>. Either some enemy \<open>i\<close> is
  the first whose draw succeeds: then exactly its \<open>alive\<close> flag becomes false, the score
  grows by \<open>100 * (enemy_type + 1)\<close>, no draw is made after it, and the number of living
  enemies drops by exactly one; or no draw succeeds and the enemies and the score are
  unchanged. In both cases the ammo drops by one.
\<close>

theorem shot_resolution:
  assumes "0 < ammo s"
  shows "(\<exists>i. first_success rng (rng_pos s) (player_x s) (player_y s) (player_angle s) (enemies s) i
            \<and> shoot rng s = s\<lparr>ammo := ammo s - 1, shooting := True, shot_timer := 0,
                 enemies := (enemies s)[i := (enemies s ! i)\<lparr>alive := False\<rparr>],
                 score := score s + 100 * (enemy_type (enemies s ! i) + 1),
                 rng_pos := Suc (rng_pos s
                    + draws_before (player_x s) (player_y s) (player_angle s) (enemies s) i)\<rparr>
            \<and> Suc (length (filter alive (enemies (shoot rng s))))
                = length (filter alive (enemies s)))
       \<or> ((\<forall>i<length (enemies s). \<not> draw_succeeds rng (rng_pos s) (player_x s) (player_y s)
                 (player_angle s) (enemies s) i)
            \<and> shoot rng s = s\<lparr>ammo := ammo s - 1, shooting := True, shot_timer := 0,
                 enemies := enemies s, score := score s,
                 rng_pos := rng_pos s + draws_before (player_x s) (player_y s) (player_angle s)
                    (enemies s) (length (enemies s))\<rparr>)"
  using first_success_cases [of rng "rng_pos s" "player_x s" "player_y s" "player_angle s" "enemies s"]
proof
  assume "\<exists>i. first_success rng (rng_pos s) (player_x s) (player_y s) (player_angle s) (enemies s) i"
  then obtain i where i: "first_success rng (rng_pos s) (player_x s) (player_y s) (player_angle s) (enemies s) i"
    by blast
  then have "i < length (enemies s)" and "alive (enemies s ! i)"
    by (simp_all add: first_success_def draw_succeeds_def valid_target_def)
  then have "Suc (length (filter alive ((enemies s)[i := (enemies s ! i)\<lparr>alive := False\<rparr>])))
      = length (filter alive (enemies s))"
    by (rule kill_count)
  with assms i show ?thesis
    by (intro disjI1 exI [of _ i]) (simp add: shoot_def scan_enemies_kill)
next
  assume "\<forall>i<length (enemies s). \<not> draw_succeeds rng (rng_pos s) (player_x s) (player_y s)
                 (player_angle s) (enemies s) i"
  with assms show ?thesis
    by (intro disjI2) (simp add: shoot_def scan_enemies_miss)
qed

text \<open>
  The player stands at \<open>(2, 3)\<close> with six enemies on the line \<open>y = 3\<close>. Facing \<open>33\<close> degrees,
  the enemies to the east deviate by \<open>33\<close> degrees and the one to the west by \<open>147\<close>: the first
  enemy is a valid target and its draw \<open>0.9\<close> fails against the chance \<open>0.85\<close>; the second is
  dead, the third is \<open>18\<close> away and the fourth is behind the player, so none of them takes a
  draw; the fifth takes the second draw and dies; the sixth is not reached. Facing \<open>36\<close>
  degrees no enemy is a valid target, and the shot costs its ammo only.
\<close>

theorem shot_resolution_witness:
  "0 < ammo (init_game\<lparr>player_y := 3, player_angle := 33, enemies := 
             [\<lparr>enemy_x = 5, enemy_y = 3, alive = True, enemy_type = 0\<rparr>,
              \<lparr>enemy_x = 6, enemy_y = 3, alive = False, enemy_type = 0\<rparr>,
              \<lparr>enemy_x = 20, enemy_y = 3, alive = True, enemy_type = 0\<rparr>,
              \<lparr>enemy_x = 0, enemy_y = 3, alive = True, enemy_type = 0\<rparr>,
              \<lparr>enemy_x = 8, enemy_y = 3, alive = True, enemy_type = 1\<rparr>,
              \<lparr>enemy_x = 9, enemy_y = 3, alive = True, enemy_type = 2\<rparr>]\<rparr>)
   \<and> shoot (\<lambda>k. if k = 0 then 0.9 else 0)
        (init_game\<lparr>player_y := 3, player_angle := 33, enemies := 
             [\<lparr>enemy_x = 5, enemy_y = 3, alive = True, enemy_type = 0\<rparr>,
              \<lparr>enemy_x = 6, enemy_y = 3, alive = False, enemy_type = 0\<rparr>,
              \<lparr>enemy_x = 20, enemy_y = 3, alive = True, enemy_type = 0\<rparr>,
              \<lparr>enemy_x = 0, enemy_y = 3, alive = True, enemy_type = 0\<rparr>,
              \<lparr>enemy_x = 8, enemy_y = 3, alive = True, enemy_type = 1\<rparr>,
              \<lparr>enemy_x = 9, enemy_y = 3, alive = True, enemy_type = 2\<rparr>]\<rparr>)
       = init_game\<lparr>player_y := 3, player_angle := 33, ammo := 49, shooting := True,
           shot_timer := 0, enemies := 
             [\<lparr>enemy_x = 5, enemy_y = 3, alive = True, enemy_type = 0\<rparr>,
              \<lparr>enemy_x = 6, enemy_y = 3, alive = False, enemy_type = 0\<rparr>,
              \<lparr>enemy_x = 20, enemy_y = 3, alive = True, enemy_type = 0\<rparr>,
              \<lparr>enemy_x = 0, enemy_y = 3, alive = True, enemy_type = 0\<rparr>,
              \<lparr>enemy_x = 8, enemy_y = 3, alive = False, enemy_type = 1\<rparr>,
              \<lparr>enemy_x = 9, enemy_y = 3, alive = True, enemy_type = 2\<rparr>],
           score := 200, rng_pos := 2\<rparr>
   \<and> deviation 2 3 33 \<lparr>enemy_x = 5, enemy_y = 3, alive = True, enemy_type = 0\<rparr> = 33
   \<and> angle_diff 2 3 33 \<lparr>enemy_x = 5, enemy_y = 3, alive = True, enemy_type = 0\<rparr> = - 33
   \<and> deviation 2 3 33 \<lparr>enemy_x = 0, enemy_y = 3, alive = True, enemy_type = 0\<rparr> = 147
   \<and> angle_diff 2 3 33 \<lparr>enemy_x = 0, enemy_y = 3, alive = True, enemy_type = 0\<rparr> = 147
   \<and> separation 2 3 \<lparr>enemy_x = 20, enemy_y = 3, alive = True, enemy_type = 0\<rparr> = 18
   \<and> 0 < ammo (init_game\<lparr>player_y := 3, player_angle := 36, enemies := 
             [\<lparr>enemy_x = 5, enemy_y = 3, alive = True, enemy_type = 0\<rparr>,
              \<lparr>enemy_x = 6, enemy_y = 3, alive = False, enemy_type = 0\<rparr>,
              \<lparr>enemy_x = 20, enemy_y = 3, alive = True, enemy_type = 0\<rparr>,
              \<lparr>enemy_x = 0, enemy_y = 3, alive = True, enemy_type = 0\<rparr>,
              \<lparr>enemy_x = 8, enemy_y = 3, alive = True, enemy_type = 1\<rparr>,
              \<lparr>enemy_x = 9, enemy_y = 3, alive = True, enemy_type = 2\<rparr>]\<rparr>)
   \<and> shoot (\<lambda>k. if k = 0 then 0.9 else 0)
        (init_game\<lparr>player_y := 3, player_angle := 36, enemies := 
             [\<lparr>enemy_x = 5, enemy_y = 3, alive = True, enemy_type = 0\<rparr>,
              \<lparr>enemy_x = 6, enemy_y = 3, alive = False, enemy_type = 0\<rparr>,
              \<lparr>enemy_x = 20, enemy_y = 3, alive = True, enemy_type = 0\<rparr>,
              \<lparr>enemy_x = 0, enemy_y = 3, alive = True, enemy_type = 0\<rparr>,
              \<lparr>enemy_x = 8, enemy_y = 3, alive = True, enemy_type = 1\<rparr>,
              \<lparr>enemy_x = 9, enemy_y = 3, alive = True, enemy_type = 2\<rparr>]\<rparr>)
       = init_game\<lparr>player_y := 3, player_angle := 36, ammo := 49, shooting := True,
           shot_timer := 0, enemies := 
             [\<lparr>enemy_x = 5, enemy_y = 3, alive = True, enemy_type = 0\<rparr>,
              \<lparr>enemy_x = 6, enemy_y = 3, alive = False, enemy_type = 0\<rparr>,
              \<lparr>enemy_x = 20, enemy_y = 3, alive = True, enemy_type = 0\<rparr>,
              \<lparr>enemy_x = 0, enemy_y = 3, alive = True, enemy_type = 0\<rparr>,
              \<lparr>enemy_x = 8, enemy_y = 3, alive = True, enemy_type = 1\<rparr>,
              \<lparr>enemy_x = 9, enemy_y = 3, alive = True, enemy_type = 2\<rparr>]\<rparr>"
proof -
  define es where "es = 
             [\<lparr>enemy_x = 5, enemy_y = 3, alive = True, enemy_type = 0\<rparr>,
              \<lparr>enemy_x = 6, enemy_y = 3, alive = False, enemy_type = 0\<rparr>,
              \<lparr>enemy_x = 20, enemy_y = 3, alive = True, enemy_type = 0\<rparr>,
              \<lparr>enemy_x = 0, enemy_y = 3, alive = True, enemy_type = 0\<rparr>,
              \<lparr>enemy_x = 8, enemy_y = 3, alive = True, enemy_type = 1\<rparr>,
              \<lparr>enemy_x = 9, enemy_y = 3, alive = True, enemy_type = 2\<rparr>]"
  define R :: "nat \<Rightarrow> real" where "R = (\<lambda>k. if k = 0 then 0.9 else 0)"
  define S where "S = init_game\<lparr>player_y := 3, player_angle := 33, enemies := es\<rparr>"
  define T where "T = init_game\<lparr>player_y := 3, player_angle := 36, enemies := es\<rparr>"
  have S: "player_x S = 2" "player_y S = 3" "player_angle S = 33" "rng_pos S = 0"
    "enemies S = es" "ammo S = 50" "score S = 0"
    by (simp_all add: S_def init_game_def)
  have T: "player_x T = 2" "player_y T = 3" "player_angle T = 36" "rng_pos T = 0"
    "enemies T = es" "ammo T = 50" "score T = 0"
    by (simp_all add: T_def init_game_def)
  have len: "length es = 6" by (simp add: es_def)
  have ammo: "0 < ammo S" "0 < ammo T" by (simp_all add: S T)
  have miss: "\<not> draw_succeeds R 0 2 3 33 es 0" "\<not> draw_succeeds R 0 2 3 33 es 1"
    "\<not> draw_succeeds R 0 2 3 33 es 2" "\<not> draw_succeeds R 0 2 3 33 es 3"
    by (simp_all add: draw_succeeds_def combat_eval es_def R_def)
  have hit: "draw_succeeds R 0 2 3 33 es 4"
    by (simp add: draw_succeeds_def combat_eval es_def R_def)
  have only: "i = 4" if "first_success R 0 2 3 33 es i" for i
  proof (rule ccontr)
    assume n: "i \<noteq> 4"
    from that have d: "draw_succeeds R 0 2 3 33 es i"
      and f: "\<forall>j<i. \<not> draw_succeeds R 0 2 3 33 es j"
      by (simp_all add: first_success_def)
    from n consider "i = 0" | "i = 1" | "i = 2" | "i = 3" | "4 < i" by linarith
    then show False
    proof cases
      case 5
      with f hit show False by blast
    qed (use d miss in simp_all)
  qed
  have none: "\<not> draw_succeeds R 0 2 3 36 es i" if "i < length es" for i
  proof -
    have "\<forall>e\<in>set es. \<not> valid_target 2 3 36 e"
      by (simp add: combat_eval es_def)
    with that show ?thesis by (simp add: draw_succeeds_def)
  qed
  from shot_resolution [OF ammo(1), of R] only hit len
  have "shoot R S = S\<lparr>ammo := ammo S - 1, shooting := True, shot_timer := 0,
      enemies := (enemies S)[4 := (enemies S ! 4)\<lparr>alive := False\<rparr>],
      score := score S + 100 * (enemy_type (enemies S ! 4) + 1),
      rng_pos := Suc (rng_pos S + draws_before (player_x S) (player_y S) (player_angle S)
        (enemies S) 4)\<rparr>"
    unfolding S by auto
  then have first: "shoot R S = init_game\<lparr>player_y := 3, player_angle := 33, ammo := 49,
           shooting := True, shot_timer := 0, enemies := 
             [\<lparr>enemy_x = 5, enemy_y = 3, alive = True, enemy_type = 0\<rparr>,
              \<lparr>enemy_x = 6, enemy_y = 3, alive = False, enemy_type = 0\<rparr>,
              \<lparr>enemy_x = 20, enemy_y = 3, alive = True, enemy_type = 0\<rparr>,
              \<lparr>enemy_x = 0, enemy_y = 3, alive = True, enemy_type = 0\<rparr>,
              \<lparr>enemy_x = 8, enemy_y = 3, alive = False, enemy_type = 1\<rparr>,
              \<lparr>enemy_x = 9, enemy_y = 3, alive = True, enemy_type = 2\<rparr>],
           score := 200, rng_pos := 2\<rparr>"
    by (simp add: S_def es_def init_game_def combat_eval)
  from shot_resolution [OF ammo(2), of R] none
  have "shoot R T = T\<lparr>ammo := ammo T - 1, shooting := True, shot_timer := 0,
      enemies := enemies T, score := score T,
      rng_pos := rng_pos T + draws_before (player_x T) (player_y T) (player_angle T)
        (enemies T) (length (enemies T))\<rparr>"
    unfolding T by (auto simp: first_success_def)
  then have second: "shoot R T = init_game\<lparr>player_y := 3, player_angle := 36, ammo := 49,
           shooting := True, shot_timer := 0, enemies := 
             [\<lparr>enemy_x = 5, enemy_y = 3, alive = True, enemy_type = 0\<rparr>,
              \<lparr>enemy_x = 6, enemy_y = 3, alive = False, enemy_type = 0\<rparr>,
              \<lparr>enemy_x = 20, enemy_y = 3, alive = True, enemy_type = 0\<rparr>,
              \<lparr>enemy_x = 0, enemy_y = 3, alive = True, enemy_type = 0\<rparr>,
              \<lparr>enemy_x = 8, enemy_y = 3, alive = True, enemy_type = 1\<rparr>,
              \<lparr>enemy_x = 9, enemy_y = 3, alive = True, enemy_type = 2\<rparr>]\<rparr>"
    by (simp add: T_def es_def init_game_def combat_eval)
  have dev: "deviation 2 3 33 \<lparr>enemy_x = 5, enemy_y = 3, alive = True, enemy_type = 0\<rparr> = 33"
    "deviation 2 3 33 \<lparr>enemy_x = 0, enemy_y = 3, alive = True, enemy_type = 0\<rparr> = 147"
    "separation 2 3 \<lparr>enemy_x = 20, enemy_y = 3, alive = True, enemy_type = 0\<rparr> = 18"
    by (simp_all add: combat_eval)
  have prog: "angle_diff 2 3 33 \<lparr>enemy_x = 5, enemy_y = 3, alive = True, enemy_type = 0\<rparr> = - 33"
    "angle_diff 2 3 33 \<lparr>enemy_x = 0, enemy_y = 3, alive = True, enemy_type = 0\<rparr> = 147"
    by (simp_all add: angle_diff_def atan2_def degrees_def py_mod_def)
  from ammo first second dev prog show ?thesis
    unfolding S_def T_def es_def R_def by simp
qed

section \<open>C7: ammo and score\<close>

text \<open>
  C7. The space key runs \<open>shoot\<close>. With no ammo left the state is returned as it was;
  with \<open>ammo > 0\<close> the ammo drops by exactly one. Hence over any run of frames the ammo
  stays non-negative once it is, and the score never decreases (the enemy classes being
  0, 1 or 2, as in \<open>ENEMIES\<close>).
\<close>

theorem shoot_ammo_score:
  "handle_key g rng 32 s = Inr (shoot rng s)
   \<and> (ammo s \<le> 0 \<longrightarrow> shoot rng s = s)
   \<and> (0 < ammo s \<longrightarrow> ammo (shoot rng s) = ammo s - 1)
   \<and> (run g rng inps s = Inr t \<longrightarrow>
        (0 \<le> ammo s \<longrightarrow> 0 \<le> ammo t) \<and> (ranked (enemies s) \<longrightarrow> score s \<le> score t))"
proof (intro conjI impI)
  show "handle_key g rng 32 s = Inr (shoot rng s)" by (simp add: handle_key_def)
  show "shoot rng s = s" if "ammo s \<le> 0" using that by (simp add: shoot_def)
  show "ammo (shoot rng s) = ammo s - 1" if "0 < ammo s" using that by (simp add: shoot_ammo)
  show "0 \<le> ammo t" if "run g rng inps s = Inr t" and "0 \<le> ammo s"
    using run_steady [OF that(1)] that(2) by (simp add: steady_def)
  show "score s \<le> score t" if "run g rng inps s = Inr t" and "ranked (enemies s)"
    using run_steady [OF that(1)] that(2) by (simp add: steady_def)
qed

theorem shoot_ammo_score_witness:
  "handle_key MAP (\<lambda>k. 0) 32 (init_game\<lparr>ammo := 0\<rparr>) = Inr (init_game\<lparr>ammo := 0\<rparr>)
   \<and> ammo (shoot (\<lambda>k. 0) init_game) = 49
   \<and> ranked (enemies init_game)
   \<and> (\<exists>t. run MAP (\<lambda>k. 0) [(32, 24)] init_game = Inr t
          \<and> 0 \<le> ammo t \<and> score init_game \<le> score t)"
proof -
  let ?t = "draw_weapon 24 (shoot (\<lambda>k. 0) init_game)"
  have run: "run MAP (\<lambda>k. 0) [(32, 24)] init_game = Inr ?t"
    by (simp add: frame_def handle_key_def init_game_def)
  have r: "ranked (enemies init_game)" by (simp add: init_game_def ranked_ENEMIES)
  have a: "ammo init_game = 50" by (simp add: init_game_def)
  from shoot_ammo_score [of MAP "\<lambda>k. 0" "init_game\<lparr>ammo := 0\<rparr>" "[]" "init_game\<lparr>ammo := 0\<rparr>"]
  have 1: "handle_key MAP (\<lambda>k. 0) 32 (init_game\<lparr>ammo := 0\<rparr>) = Inr (init_game\<lparr>ammo := 0\<rparr>)"
    by simp
  from shoot_ammo_score [of MAP "\<lambda>k. 0" init_game "[(32, 24)]" ?t] run r a
  have 2: "ammo (shoot (\<lambda>k. 0) init_game) = 49" and 3: "0 \<le> ammo ?t" and 4: "score init_game \<le> score ?t"
    by simp_all
  from 1 2 3 4 r run show ?thesis by blast
qed

section \<open>C9: enemies die once and stay in place\<close>

text \<open>
  C9. Over any run of frames (keys for moving, turning and shooting, each followed by the
  drawing of the frame), continued by any second run, the enemy list keeps its length and
  every entry keeps its position and class; an enemy alive after the first run was alive
  before it, and an enemy alive after the second run was alive after the first: a flag
  that has become false is never true again, so it changes at most once.
\<close>

theorem enemies_never_revive:
  assumes "run g rng inps s = Inr t" and "run g rng inps' t = Inr u"
  shows "length (enemies t) = length (enemies s) \<and> length (enemies u) = length (enemies s)
         \<and> (\<forall>i<length (enemies s).
               enemy_x (enemies t ! i) = enemy_x (enemies s ! i)
             \<and> enemy_y (enemies t ! i) = enemy_y (enemies s ! i)
             \<and> enemy_type (enemies t ! i) = enemy_type (enemies s ! i)
             \<and> enemy_x (enemies u ! i) = enemy_x (enemies s ! i)
             \<and> enemy_y (enemies u ! i) = enemy_y (enemies s ! i)
             \<and> enemy_type (enemies u ! i) = enemy_type (enemies s ! i)
             \<and> (alive (enemies t ! i) \<longrightarrow> alive (enemies s ! i))
             \<and> (alive (enemies u ! i) \<longrightarrow> alive (enemies t ! i)))"
proof -
  from run_steady [OF assms(1)] have st: "enemies_fade (enemies s) (enemies t)"
    by (simp add: steady_def)
  from run_steady [OF assms(2)] have tu: "enemies_fade (enemies t) (enemies u)"
    by (simp add: steady_def)
  from st tu show ?thesis
    by (simp add: enemies_fade_def)
qed

theorem enemies_never_revive_witness:
  "run MAP (\<lambda>k. 0) [(32, 24)] (init_game\<lparr>player_y := 3\<rparr>)
     = Inr (init_game\<lparr>player_y := 3, ammo := 49, shooting := True, shot_timer := 1,
              enemies := ENEMIES[0 := (ENEMIES ! 0)\<lparr>alive := False\<rparr>], score := 100,
              rng_pos := 1\<rparr>)
   \<and> run MAP (\<lambda>k. 0) [(113, 24)]
        (init_game\<lparr>player_y := 3, ammo := 49, shooting := True, shot_timer := 1,
              enemies := ENEMIES[0 := (ENEMIES ! 0)\<lparr>alive := False\<rparr>], score := 100,
              rng_pos := 1\<rparr>)
     = Inr (init_game\<lparr>player_y := 3, player_angle := 357, ammo := 49, shooting := True,
              shot_timer := 2,
              enemies := ENEMIES[0 := (ENEMIES ! 0)\<lparr>alive := False\<rparr>], score := 100,
              rng_pos := 1\<rparr>)
   \<and> enemies_fade ENEMIES (ENEMIES[0 := (ENEMIES ! 0)\<lparr>alive := False\<rparr>])
   \<and> alive (ENEMIES ! 0)"
proof -
  let ?s = "init_game\<lparr>player_y := 3\<rparr>"
  let ?t = "init_game\<lparr>player_y := 3, ammo := 49, shooting := True, shot_timer := 1,
              enemies := ENEMIES[0 := (ENEMIES ! 0)\<lparr>alive := False\<rparr>], score := 100,
              rng_pos := 1\<rparr>"
  let ?u = "init_game\<lparr>player_y := 3, player_angle := 357, ammo := 49, shooting := True,
              shot_timer := 2,
              enemies := ENEMIES[0 := (ENEMIES ! 0)\<lparr>alive := False\<rparr>], score := 100,
              rng_pos := 1\<rparr>"
  have 1: "run MAP (\<lambda>k. 0) [(32, 24)] ?s = Inr ?t"
    by (simp add: frame_def handle_key_def init_game_def draw_weapon_def shoot_def ENEMIES_def
        in_sights_def hit_chance_def angle_diff_def enemy_dist_def distance_def atan2_def
        degrees_def py_mod_def FOV_def DEPTH_def)
  have 2: "run MAP (\<lambda>k. 0) [(113, 24)] ?t = Inr ?u"
    by (simp add: frame_def handle_key_def init_game_def draw_weapon_def py_mod_def turn_step_def)
  from enemies_never_revive [OF 1 2]
  have "enemies_fade (enemies ?s) (enemies ?t)"
    unfolding enemies_fade_def by simp
  then have 3: "enemies_fade ENEMIES (ENEMIES[0 := (ENEMIES ! 0)\<lparr>alive := False\<rparr>])"
    by (simp add: init_game_def)
  have 4: "alive (ENEMIES ! 0)" by (simp add: ENEMIES_def)
  from 1 2 3 4 show ?thesis by blast
qed

section \<open>The ray loop on a rectangular grid\<close>

lemmas probe_eval = probe_def probe_cell_def probe_tile_def probe_in_grid_def cell_frac_x_def
  cell_frac_y_def near_side_def stops_ray_def passes_def

lemma ray_init_sel:
  "distance_to_wall ray_init = 0" "hit_wall ray_init = False" "hit_lower_wall ray_init = False"
  "hit_pillar ray_init = False" "hit_corner ray_init = False" "boundary ray_init = False"
  "wall_orientation ray_init = 0" "adjacent_walls ray_init = []"
  by (simp_all add: ray_init_def)

lemma count_adjacent_rect:
  assumes "rect_grid g"
  shows "count_adjacent g mx my ds c adj =
     Inr (c + int (length (filter (\<lambda>(dx, dy). in_grid g (mx + dx) (my + dy)
                                      \<and> tile g (mx + dx) (my + dy) = CHR ''#'') ds)),
          adj @ filter (\<lambda>(dx, dy). in_grid g (mx + dx) (my + dy)
                                      \<and> tile g (mx + dx) (my + dy) = CHR ''#'') ds)"
proof (induction ds arbitrary: c adj)
  case Nil
  show ?case by simp
next
  case (Cons d ds)
  obtain dx dy where d: "d = (dx, dy)" by (cases d)
  show ?case
  proof (cases "in_grid g (mx + dx) (my + dy)")
    case True
    then have "0 \<le> my + dy \<and> my + dy < map_height g \<and> 0 \<le> mx + dx \<and> mx + dx < grid_width g"
      by (simp add: in_grid_def)
    with True assms show ?thesis
      by (simp add: d Cons.IH map_width_rect tile_at_rect Let_def)
  next
    case False
    with assms show ?thesis
      by (auto simp: d Cons.IH map_width_rect Let_def in_grid_def)
  qed
qed

lemma hit_tile_wall:
  assumes "rect_grid g"
  shows "hit_tile g CHR ''#'' rx ry mx my r =
     Inr (r\<lparr>hit_wall := True,
            wall_orientation :=
              face_orientation (rx - of_int mx) (ry - of_int my) (wall_orientation r),
            boundary := (boundary r \<or> on_edge (rx - of_int mx) (ry - of_int my)),
            adjacent_walls := adjacent_walls r @ wall_neighbours g mx my,
            hit_corner := (hit_corner r \<or> 3 \<le> int (length (wall_neighbours g mx my)))\<rparr>)"
  by (simp add: hit_tile_def Let_def count_adjacent_rect [OF assms] wall_neighbours_def)

lemma hit_tile_pass: "\<not> stops_ray c \<Longrightarrow> hit_tile g c rx ry mx my r = Inr r"
  by (simp add: hit_tile_def stops_ray_def)

lemma hit_tile_stops:
  assumes "rect_grid g" and "stops_ray c"
  shows "\<exists>r'. hit_tile g c rx ry mx my r = Inr r' \<and> hit_wall r'
            \<and> distance_to_wall r' = distance_to_wall r
            \<and> hit_lower_wall r' = (hit_lower_wall r \<or> c = CHR ''L'')
            \<and> hit_pillar r' = (hit_pillar r \<or> c = CHR ''P'')"
proof (cases "c = CHR ''#''")
  case True
  with assms(1) show ?thesis by (simp add: hit_tile_wall)
next
  case False
  with assms(2) show ?thesis
    by (auto simp: hit_tile_def stops_ray_def Let_def)
qed

lemma ray_step_rect:
  assumes "rect_grid g" and "distance_to_wall r = of_nat n * step_size"
  shows "ray_step g px py ra depth r =
     (if probe_in_grid g px py ra (Suc n)
      then hit_tile g (probe_tile g px py ra (Suc n))
             (fst (probe px py ra (Suc n))) (snd (probe px py ra (Suc n)))
             (fst (probe_cell px py ra (Suc n))) (snd (probe_cell px py ra (Suc n)))
             (r\<lparr>distance_to_wall := of_nat (Suc n) * step_size\<rparr>)
      else Inr (r\<lparr>hit_wall := True, distance_to_wall := depth\<rparr>))"
proof -
  have d: "distance_to_wall r + step_size = of_nat (Suc n) * step_size"
    using assms(2) by (simp add: algebra_simps)
  show ?thesis
  proof (cases "probe_in_grid g px py ra (Suc n)")
    case True
    then have ig: "in_grid g (py_int (px + cos ra * (of_nat (Suc n) * step_size)))
        (py_int (py + sin ra * (of_nat (Suc n) * step_size)))"
      by (simp add: probe_in_grid_def probe_cell_def probe_def)
    from ig have b: "\<not> (py_int (px + cos ra * (of_nat (Suc n) * step_size)) < 0
        \<or> py_int (py + sin ra * (of_nat (Suc n) * step_size)) < 0)"
      "\<not> (py_int (px + cos ra * (of_nat (Suc n) * step_size)) \<ge> grid_width g
        \<or> py_int (py + sin ra * (of_nat (Suc n) * step_size)) \<ge> map_height g)"
      by (auto simp: in_grid_def)
    show ?thesis
      unfolding ray_step_def Let_def d
      using True b tile_at_rect [OF assms(1) ig]
      by (simp add: map_width_rect [OF assms(1)] probe_tile_def probe_cell_def probe_def
          del: of_nat_Suc)
  next
    case False
    then have "\<not> in_grid g (py_int (px + cos ra * (of_nat (Suc n) * step_size)))
        (py_int (py + sin ra * (of_nat (Suc n) * step_size)))"
      by (simp add: probe_in_grid_def probe_cell_def probe_def)
    then show ?thesis
      unfolding ray_step_def Let_def d
      using False
      by (auto simp: map_width_rect [OF assms(1)] in_grid_def simp del: of_nat_Suc)
  qed
qed

lemma clear_run_Suc:
  "clear_run g px py ra depth (Suc n) \<longleftrightarrow>
     clear_run g px py ra depth n \<and> passes g px py ra (Suc n) \<and> of_nat n * step_size < depth"
  by (auto simp: clear_run_def le_Suc_eq less_Suc_eq)

lemma march_clear:
  assumes "rect_grid g"
  shows "clear_run g px py ra depth n \<Longrightarrow>
     march g px py ra depth ray_init =
     march g px py ra depth (ray_init\<lparr>distance_to_wall := of_nat n * step_size\<rparr>)"
proof (induction n)
  case 0
  show ?case by (simp add: ray_init_def)
next
  case (Suc n)
  let ?r = "ray_init\<lparr>distance_to_wall := of_nat n * step_size\<rparr>"
  from Suc.prems have cr: "clear_run g px py ra depth n"
    and p: "passes g px py ra (Suc n)" and lt: "of_nat n * step_size < depth"
    by (simp_all add: clear_run_Suc)
  have d: "distance_to_wall ?r = of_nat n * step_size" by simp
  have step: "ray_step g px py ra depth ?r
      = Inr (ray_init\<lparr>distance_to_wall := of_nat (Suc n) * step_size\<rparr>)"
    using p unfolding ray_step_rect [OF assms d] passes_def
    by (simp add: hit_tile_pass del: of_nat_Suc)
  have "march g px py ra depth ?r
      = march g px py ra depth (ray_init\<lparr>distance_to_wall := of_nat (Suc n) * step_size\<rparr>)"
    using lt by (subst march.simps) (simp add: step ray_init_sel del: of_nat_Suc)
  with Suc.IH [OF cr] show ?case by simp
qed

lemma stop_exists:
  "\<exists>n. clear_run g px py ra depth n
       \<and> (depth \<le> of_nat n * step_size \<or> \<not> passes g px py ra (Suc n))"
proof -
  obtain n0 :: nat where "depth / step_size < of_nat n0"
    using reals_Archimedean2 by blast
  then have "depth \<le> of_nat n0 * step_size"
    by (simp add: step_size_def field_simps)
  then have "\<exists>n. depth \<le> of_nat n * step_size \<or> \<not> passes g px py ra (Suc n)"
    by blast
  then obtain n where n: "depth \<le> of_nat n * step_size \<or> \<not> passes g px py ra (Suc n)"
    and least: "\<forall>m<n. \<not> (depth \<le> of_nat m * step_size \<or> \<not> passes g px py ra (Suc m))"
    unfolding exists_least_iff [of "\<lambda>n. depth \<le> of_nat n * step_size \<or> \<not> passes g px py ra (Suc n)"]
    by blast
  have "clear_run g px py ra depth n"
    unfolding clear_run_def
  proof (intro conjI allI impI)
    fix k assume "1 \<le> k \<and> k \<le> n"
    then obtain m where "k = Suc m" and "m < n" by (cases k) auto
    with least show "passes g px py ra k" by auto
  next
    fix m assume "m < n"
    with least show "of_nat m * step_size < depth" by auto
  qed
  with n show ?thesis by blast
qed

lemma march_out_of_range:
  assumes "rect_grid g" and "clear_run g px py ra depth n" and "depth \<le> of_nat n * step_size"
  shows "march g px py ra depth ray_init = Inr (ray_init\<lparr>distance_to_wall := of_nat n * step_size\<rparr>)"
  using assms(3) unfolding march_clear [OF assms(1,2)]
  by (subst march.simps) simp

lemma march_stops:
  assumes "rect_grid g" and "clear_run g px py ra depth n" and "of_nat n * step_size < depth"
    and "\<not> passes g px py ra (Suc n)"
  shows "\<exists>r. march g px py ra depth ray_init = Inr r
       \<and> ray_step g px py ra depth (ray_init\<lparr>distance_to_wall := of_nat n * step_size\<rparr>) = Inr r
       \<and> hit_wall r"
proof -
  let ?r = "ray_init\<lparr>distance_to_wall := of_nat n * step_size\<rparr>"
  have d: "distance_to_wall ?r = of_nat n * step_size" by simp
  have "\<exists>r. ray_step g px py ra depth ?r = Inr r \<and> hit_wall r"
  proof (cases "probe_in_grid g px py ra (Suc n)")
    case True
    with assms(4) have "stops_ray (probe_tile g px py ra (Suc n))" by (simp add: passes_def)
    from hit_tile_stops [OF assms(1) this] True show ?thesis
      unfolding ray_step_rect [OF assms(1) d] by (simp del: of_nat_Suc) blast
  next
    case False
    then show ?thesis
      unfolding ray_step_rect [OF assms(1) d] by simp
  qed
  then obtain r where r: "ray_step g px py ra depth ?r = Inr r" and h: "hit_wall r" by blast
  have "march g px py ra depth ?r = march g px py ra depth r"
    using assms(3) by (subst march.simps) (simp add: r ray_init_sel)
  also have "\<dots> = Inr r"
    using h by (subst march.simps) simp
  finally show ?thesis
    using r h march_clear [OF assms(1,2)] by simp
qed

lemma clear_run_deeper:
  "clear_run g px py ra depth1 n \<Longrightarrow> depth1 \<le> depth2 \<Longrightarrow> clear_run g px py ra depth2 n"
  by (fastforce simp: clear_run_def)

lemma stop_unique:
  assumes "clear_run g px py ra depth n" and "\<not> passes g px py ra (Suc n)"
    and "clear_run g px py ra depth' n'" and "\<not> passes g px py ra (Suc n')"
  shows "n = n'"
proof (rule ccontr)
  assume "n \<noteq> n'"
  then consider "Suc n \<le> n'" | "Suc n' \<le> n" by linarith
  then show False
  proof cases
    case 1
    with assms(3) have "passes g px py ra (Suc n)" by (simp add: clear_run_def)
    with assms(2) show False by simp
  next
    case 2
    with assms(1) have "passes g px py ra (Suc n')" by (simp add: clear_run_def)
    with assms(4) show False by simp
  qed
qed

lemma cast_ray_hit:
  assumes "rect_grid g" and "clear_run g px py (radians a) depth n"
    and "of_nat n * step_size < depth" and "probe_in_grid g px py (radians a) (Suc n)"
    and "stops_ray (probe_tile g px py (radians a) (Suc n))"
  shows "cast_ray g px py a depth =
     hit_tile g (probe_tile g px py (radians a) (Suc n))
       (fst (probe px py (radians a) (Suc n))) (snd (probe px py (radians a) (Suc n)))
       (fst (probe_cell px py (radians a) (Suc n))) (snd (probe_cell px py (radians a) (Suc n)))
       (ray_init\<lparr>distance_to_wall := of_nat (Suc n) * step_size\<rparr>)"
proof -
  let ?r0 = "ray_init\<lparr>distance_to_wall := of_nat n * step_size\<rparr>"
  have d: "distance_to_wall ?r0 = of_nat n * step_size" by simp
  from assms(4,5) have "\<not> passes g px py (radians a) (Suc n)" by (simp add: passes_def)
  from march_stops [OF assms(1,2,3) this]
  have "cast_ray g px py a depth = ray_step g px py (radians a) depth ?r0"
    by (auto simp: cast_ray_def)
  with assms(4) show ?thesis
    unfolding ray_step_rect [OF assms(1) d] by (simp del: of_nat_Suc)
qed

lemma clear_run_0: "clear_run g px py ra depth 0"
  by (simp add: clear_run_def)

lemma cast_ray_reaches:
  assumes "rect_grid g" and "step_size \<le> depth"
  shows "\<exists>r. cast_ray g px py a depth = Inr r \<and> step_size \<le> distance_to_wall r"
proof -
  let ?ra = "radians a"
  have pos: "0 < depth" using assms(2) by (simp add: step_size_def)
  from stop_exists [of g px py ?ra depth]
  obtain n where cr: "clear_run g px py ?ra depth n"
    and n: "depth \<le> of_nat n * step_size \<or> \<not> passes g px py ?ra (Suc n)"
    by blast
  let ?r0 = "ray_init\<lparr>distance_to_wall := of_nat n * step_size\<rparr>"
  have d: "distance_to_wall ?r0 = of_nat n * step_size" by simp
  show ?thesis
  proof (cases "depth \<le> of_nat n * step_size")
    case True
    from march_out_of_range [OF assms(1) cr True] True assms(2) show ?thesis
      by (simp add: cast_ray_def)
  next
    case False
    then have lt: "of_nat n * step_size < depth" by simp
    from False n have np: "\<not> passes g px py ?ra (Suc n)" by simp
    from march_stops [OF assms(1) cr lt np]
    obtain r where m: "cast_ray g px py a depth = Inr r"
      and s: "ray_step g px py ?ra depth ?r0 = Inr r"
      by (auto simp: cast_ray_def)
    have "step_size \<le> distance_to_wall r"
    proof (cases "probe_in_grid g px py ?ra (Suc n)")
      case True
      with s have "hit_tile g (probe_tile g px py ?ra (Suc n))
         (fst (probe px py ?ra (Suc n))) (snd (probe px py ?ra (Suc n)))
         (fst (probe_cell px py ?ra (Suc n))) (snd (probe_cell px py ?ra (Suc n)))
         (?r0\<lparr>distance_to_wall := of_nat (Suc n) * step_size\<rparr>) = Inr r"
        unfolding ray_step_rect [OF assms(1) d] by simp
      then have "distance_to_wall r = of_nat (Suc n) * step_size"
        by (auto simp: hit_tile_def Let_def split: if_splits sum.splits prod.splits
            simp del: of_nat_Suc)
      moreover have "step_size \<le> of_nat (Suc n) * step_size"
        by (simp add: step_size_def)
      ultimately show ?thesis by simp
    next
      case False
      with s have "r = ray_init\<lparr>hit_wall := True, distance_to_wall := depth\<rparr>"
        unfolding ray_step_rect [OF assms(1) d] by simp
      with assms(2) show ?thesis by simp
    qed
    with m show ?thesis by blast
  qed
qed

lemma column_angle_bounds:
  assumes "0 \<le> x" and "x < min width 1000"
  shows "- (FOV / 2) \<le> ray_angle_of pa x width - pa" and "ray_angle_of pa x width - pa < FOV / 2"
proof -
  define q where "q = real_of_int x / real_of_int (min width 1000)"
  have w: "0 < real_of_int (min width 1000)" using assms by simp
  have q0: "0 \<le> q" using assms w by (simp add: q_def)
  have q1: "q < 1" using assms w by (simp add: q_def)
  have eq: "ray_angle_of pa x width - pa = - 35 + q * 70"
    by (simp add: ray_angle_of_def FOV_def q_def)
  from q0 have "- 35 \<le> - 35 + q * 70" by simp
  then show "- (FOV / 2) \<le> ray_angle_of pa x width - pa"
    unfolding eq by (simp add: FOV_def)
  from q1 have "- 35 + q * 70 < 35" by simp
  then show "ray_angle_of pa x width - pa < FOV / 2"
    unfolding eq by (simp add: FOV_def)
qed

lemma fisheye_positive:
  assumes "- (FOV / 2) \<le> ra - pa" and "ra - pa < FOV / 2"
  shows "0 < fisheye_correction ra pa"
proof -
  define t where "t = ra - pa"
  have k: "0 < pi / 180" using pi_gt_zero by simp
  from assms have t: "- 35 \<le> t" "t < 35" by (simp_all add: t_def FOV_def)
  have r: "radians (ra - pa) = t * (pi / 180)" by (simp add: radians_def t_def)
  from t(1) k have "- 35 * (pi / 180) \<le> t * (pi / 180)"
    by (intro mult_right_mono) simp_all
  moreover have "- (pi / 2) < - 35 * (pi / 180)" using pi_gt_zero by simp
  ultimately have lo: "- (pi / 2) < radians (ra - pa)" unfolding r by linarith
  from t(2) k have "t * (pi / 180) < 35 * (pi / 180)"
    by (intro mult_strict_right_mono) simp_all
  moreover have "35 * (pi / 180) < pi / 2" using pi_gt_zero by simp
  ultimately have hi: "radians (ra - pa) < pi / 2" unfolding r by linarith
  from lo hi show ?thesis
    unfolding fisheye_correction_def by (rule cos_gt_zero_pi)
qed

section \<open>C1: the outcomes of the ray marcher\<close>

text \<open>
  C1. On a rectangular grid the marcher returns for every origin, angle and depth limit.
  Pass \<open>k\<close> of the loop tests the cell of the point at distance \<open>k * step_size\<close>, and there
  is a number \<open>n\<close> of passes that did not end the loop such that one of three cases holds:
  the distance \<open>n * step_size\<close> has reached the depth limit and the result is the initial
  state with that distance, no hit and no kind (out of range); or pass \<open>n + 1\<close> finds a
  cell outside the grid and the result is a bare wall hit whose distance is exactly the
  depth limit; or pass \<open>n + 1\<close> finds, inside the grid, one of the tiles \<open>#\<close>, \<open>L\<close>, \<open>P\<close>, \<open>C\<close>,
  and the result is a hit at the distance \<open>(n + 1) * step_size\<close> travelled at that pass.
  The range test is the loop guard: it is made on the distance before each pass.
\<close>

theorem ray_march_outcomes:
  assumes "rect_grid g"
  shows "\<exists>n r. cast_ray g px py a depth = Inr r \<and> clear_run g px py (radians a) depth n
     \<and> ((depth \<le> of_nat n * step_size
          \<and> r = ray_init\<lparr>distance_to_wall := of_nat n * step_size\<rparr>)
        \<or> (of_nat n * step_size < depth \<and> \<not> probe_in_grid g px py (radians a) (Suc n)
          \<and> r = ray_init\<lparr>hit_wall := True, distance_to_wall := depth\<rparr>)
        \<or> (of_nat n * step_size < depth \<and> probe_in_grid g px py (radians a) (Suc n)
          \<and> stops_ray (probe_tile g px py (radians a) (Suc n))
          \<and> hit_wall r \<and> distance_to_wall r = of_nat (Suc n) * step_size
          \<and> hit_lower_wall r = (probe_tile g px py (radians a) (Suc n) = CHR ''L'')
          \<and> hit_pillar r = (probe_tile g px py (radians a) (Suc n) = CHR ''P'')))"
proof -
  let ?ra = "radians a"
  from stop_exists [of g px py ?ra depth]
  obtain n where cr: "clear_run g px py ?ra depth n"
    and n: "depth \<le> of_nat n * step_size \<or> \<not> passes g px py ?ra (Suc n)"
    by blast
  let ?r0 = "ray_init\<lparr>distance_to_wall := of_nat n * step_size\<rparr>"
  have d: "distance_to_wall ?r0 = of_nat n * step_size" by simp
  show ?thesis
  proof (cases "depth \<le> of_nat n * step_size")
    case True
    from march_out_of_range [OF assms cr True] cr True show ?thesis
      unfolding cast_ray_def by blast
  next
    case False
    then have lt: "of_nat n * step_size < depth" by simp
    from False n have np: "\<not> passes g px py ?ra (Suc n)" by simp
    from march_stops [OF assms cr lt np]
    obtain r where m: "march g px py ?ra depth ray_init = Inr r"
      and s: "ray_step g px py ?ra depth ?r0 = Inr r" and h: "hit_wall r"
      by blast
    show ?thesis
    proof (cases "probe_in_grid g px py ?ra (Suc n)")
      case True
      with np have st: "stops_ray (probe_tile g px py ?ra (Suc n))" by (simp add: passes_def)
      let ?r1 = "?r0\<lparr>distance_to_wall := of_nat (Suc n) * step_size\<rparr>"
      from hit_tile_stops [OF assms st, of "fst (probe px py ?ra (Suc n))"
          "snd (probe px py ?ra (Suc n))" "fst (probe_cell px py ?ra (Suc n))"
          "snd (probe_cell px py ?ra (Suc n))" ?r1]
      obtain r' where ht: "hit_tile g (probe_tile g px py ?ra (Suc n))
            (fst (probe px py ?ra (Suc n))) (snd (probe px py ?ra (Suc n)))
            (fst (probe_cell px py ?ra (Suc n))) (snd (probe_cell px py ?ra (Suc n))) ?r1 = Inr r'"
        and r': "distance_to_wall r' = distance_to_wall ?r1"
          "hit_lower_wall r' = (hit_lower_wall ?r1 \<or> probe_tile g px py ?ra (Suc n) = CHR ''L'')"
          "hit_pillar r' = (hit_pillar ?r1 \<or> probe_tile g px py ?ra (Suc n) = CHR ''P'')"
        by blast
      from s True ht have "r = r'"
        unfolding ray_step_rect [OF assms d] by simp
      with r' have "distance_to_wall r = of_nat (Suc n) * step_size
          \<and> hit_lower_wall r = (probe_tile g px py ?ra (Suc n) = CHR ''L'')
          \<and> hit_pillar r = (probe_tile g px py ?ra (Suc n) = CHR ''P'')"
        by (simp add: ray_init_sel del: of_nat_Suc)
      with m cr lt True st h show ?thesis
        unfolding cast_ray_def by blast
    next
      case False
      with s have "r = ray_init\<lparr>hit_wall := True, distance_to_wall := depth\<rparr>"
        unfolding ray_step_rect [OF assms d] by simp
      with m cr lt False show ?thesis
        unfolding cast_ray_def by blast
    qed
  qed
qed

theorem ray_march_outcomes_witness:
  "rect_grid MAP
   \<and> (\<exists>n r. cast_ray MAP 3.99 2.995 0 16 = Inr r \<and> clear_run MAP 3.99 2.995 (radians 0) 16 n
     \<and> ((16 \<le> of_nat n * step_size
          \<and> r = ray_init\<lparr>distance_to_wall := of_nat n * step_size\<rparr>)
        \<or> (of_nat n * step_size < 16 \<and> \<not> probe_in_grid MAP 3.99 2.995 (radians 0) (Suc n)
          \<and> r = ray_init\<lparr>hit_wall := True, distance_to_wall := 16\<rparr>)
        \<or> (of_nat n * step_size < 16 \<and> probe_in_grid MAP 3.99 2.995 (radians 0) (Suc n)
          \<and> stops_ray (probe_tile MAP 3.99 2.995 (radians 0) (Suc n))
          \<and> hit_wall r \<and> distance_to_wall r = of_nat (Suc n) * step_size
          \<and> hit_lower_wall r = (probe_tile MAP 3.99 2.995 (radians 0) (Suc n) = CHR ''L'')
          \<and> hit_pillar r = (probe_tile MAP 3.99 2.995 (radians 0) (Suc n) = CHR ''P''))))
   \<and> cast_ray MAP 3.99 2.995 0 16 =
       Inr (ray_init\<lparr>distance_to_wall := 0.02, hit_wall := True, boundary := True,
              adjacent_walls := [(0, 1), (1, 0)]\<rparr>)"
proof -
  have "cast_ray MAP 3.99 2.995 0 16 =
       Inr (ray_init\<lparr>distance_to_wall := 0.02, hit_wall := True, boundary := True,
              adjacent_walls := [(0, 1), (1, 0)]\<rparr>)"
    by (simp add: ray_eval grid_eval MAP_def)
  with rect_grid_MAP ray_march_outcomes [OF rect_grid_MAP, of "3.99" "2.995" 0 16]
  show ?thesis by blast
qed

section \<open>C2: the classification of a hit\<close>

text \<open>
  On the program's map the ray from \<open>(3.99, 2.995)\<close> at angle \<open>0\<close> stops at its first probe
  \<open>(4.01, 2.995)\<close> in the wall cell \<open>(4, 2)\<close>. The fractional position is \<open>(0.01, 0.995)\<close>:
  the fractional \<open>y\<close> is above \<open>0.98\<close>, yet the orientation is \<open>0\<close> (vertical), because the
  test on the fractional \<open>x\<close> comes first in the chain.
\<close>

theorem orientation_counterexample:
  "cast_ray MAP 3.99 2.995 0 16 =
     Inr \<lparr>distance_to_wall = 0.02, hit_wall = True, hit_lower_wall = False,
          hit_pillar = False, hit_corner = False, boundary = True, wall_orientation = 0,
          adjacent_walls = [(0, 1), (1, 0)]\<rparr>
   \<and> probe_cell 3.99 2.995 (radians 0) 1 = (4, 2)
   \<and> tile_at MAP 2 4 = Inr CHR ''#''
   \<and> cell_frac_x 3.99 2.995 (radians 0) 1 = 0.01
   \<and> cell_frac_y 3.99 2.995 (radians 0) 1 = 0.995
   \<and> (0.995::real) > 0.98"
  by (simp add: ray_eval grid_eval MAP_def probe_eval)

text \<open>
  C2, as amended. When the pass that ends the loop finds a wall \<open>#\<close> or a lower wall \<open>L\<close>,
  the orientation is vertical (\<open>0\<close>) when the fractional \<open>x\<close> of the ray point in its cell is
  below \<open>0.02\<close> or above \<open>0.98\<close>; it is horizontal (\<open>1\<close>) when the fractional \<open>x\<close> is not
  within that tolerance and the fractional \<open>y\<close> is; it keeps its initial value \<open>0\<close>
  otherwise. The boundary flag is set exactly when the fractional \<open>x\<close> or \<open>y\<close> is within
  the tolerance. For a wall, the corner flag is set exactly when at least three of the four
  orthogonal neighbours lie in the grid and hold a wall. A pillar \<open>P\<close> or a corner
  decoration \<open>C\<close> sets the boundary flag and leaves the orientation at its initial value.
\<close>

theorem hit_classification:
  assumes "rect_grid g" and "clear_run g px py (radians a) depth n"
    and "of_nat n * step_size < depth" and "probe_in_grid g px py (radians a) (Suc n)"
  shows
    "(probe_tile g px py (radians a) (Suc n) = CHR ''#'' \<longrightarrow>
        cast_ray g px py a depth =
          Inr (ray_init\<lparr>distance_to_wall := of_nat (Suc n) * step_size, hit_wall := True,
                 wall_orientation :=
                   (if near_side (cell_frac_x px py (radians a) (Suc n)) then 0
                    else if near_side (cell_frac_y px py (radians a) (Suc n)) then 1 else 0),
                 boundary := (near_side (cell_frac_x px py (radians a) (Suc n))
                              \<or> near_side (cell_frac_y px py (radians a) (Suc n))),
                 adjacent_walls := wall_neighbours g (fst (probe_cell px py (radians a) (Suc n)))
                                     (snd (probe_cell px py (radians a) (Suc n))),
                 hit_corner := (3 \<le> length (wall_neighbours g
                                     (fst (probe_cell px py (radians a) (Suc n)))
                                     (snd (probe_cell px py (radians a) (Suc n)))))\<rparr>))
   \<and> (probe_tile g px py (radians a) (Suc n) = CHR ''L'' \<longrightarrow>
        cast_ray g px py a depth =
          Inr (ray_init\<lparr>distance_to_wall := of_nat (Suc n) * step_size, hit_wall := True,
                 hit_lower_wall := True,
                 wall_orientation :=
                   (if near_side (cell_frac_x px py (radians a) (Suc n)) then 0
                    else if near_side (cell_frac_y px py (radians a) (Suc n)) then 1 else 0),
                 boundary := (near_side (cell_frac_x px py (radians a) (Suc n))
                              \<or> near_side (cell_frac_y px py (radians a) (Suc n)))\<rparr>))
   \<and> (probe_tile g px py (radians a) (Suc n) = CHR ''P'' \<longrightarrow>
        cast_ray g px py a depth =
          Inr (ray_init\<lparr>distance_to_wall := of_nat (Suc n) * step_size, hit_wall := True,
                 hit_pillar := True, boundary := True\<rparr>))
   \<and> (probe_tile g px py (radians a) (Suc n) = CHR ''C'' \<longrightarrow>
        cast_ray g px py a depth =
          Inr (ray_init\<lparr>distance_to_wall := of_nat (Suc n) * step_size, hit_wall := True,
                 hit_corner := True, boundary := True\<rparr>))"
proof (intro conjI impI)
  assume t: "probe_tile g px py (radians a) (Suc n) = CHR ''#''"
  then have "stops_ray (probe_tile g px py (radians a) (Suc n))" by (simp add: stops_ray_def)
  from cast_ray_hit [OF assms this] show "cast_ray g px py a depth =
          Inr (ray_init\<lparr>distance_to_wall := of_nat (Suc n) * step_size, hit_wall := True,
                 wall_orientation :=
                   (if near_side (cell_frac_x px py (radians a) (Suc n)) then 0
                    else if near_side (cell_frac_y px py (radians a) (Suc n)) then 1 else 0),
                 boundary := (near_side (cell_frac_x px py (radians a) (Suc n))
                              \<or> near_side (cell_frac_y px py (radians a) (Suc n))),
                 adjacent_walls := wall_neighbours g (fst (probe_cell px py (radians a) (Suc n)))
                                     (snd (probe_cell px py (radians a) (Suc n))),
                 hit_corner := (3 \<le> length (wall_neighbours g
                                     (fst (probe_cell px py (radians a) (Suc n)))
                                     (snd (probe_cell px py (radians a) (Suc n)))))\<rparr>)"
    unfolding t hit_tile_wall [OF assms(1)]
    by (simp add: ray_init_def face_orientation_def on_edge_def near_side_def cell_frac_x_def
        cell_frac_y_def del: of_nat_Suc)
next
  assume t: "probe_tile g px py (radians a) (Suc n) = CHR ''L''"
  then have "stops_ray (probe_tile g px py (radians a) (Suc n))" by (simp add: stops_ray_def)
  from cast_ray_hit [OF assms this] show "cast_ray g px py a depth =
          Inr (ray_init\<lparr>distance_to_wall := of_nat (Suc n) * step_size, hit_wall := True,
                 hit_lower_wall := True,
                 wall_orientation :=
                   (if near_side (cell_frac_x px py (radians a) (Suc n)) then 0
                    else if near_side (cell_frac_y px py (radians a) (Suc n)) then 1 else 0),
                 boundary := (near_side (cell_frac_x px py (radians a) (Suc n))
                              \<or> near_side (cell_frac_y px py (radians a) (Suc n)))\<rparr>)"
    unfolding t
    by (simp add: hit_tile_def ray_init_def face_orientation_def on_edge_def near_side_def
        cell_frac_x_def cell_frac_y_def Let_def del: of_nat_Suc)
next
  assume t: "probe_tile g px py (radians a) (Suc n) = CHR ''P''"
  then have "stops_ray (probe_tile g px py (radians a) (Suc n))" by (simp add: stops_ray_def)
  from cast_ray_hit [OF assms this] show "cast_ray g px py a depth =
          Inr (ray_init\<lparr>distance_to_wall := of_nat (Suc n) * step_size, hit_wall := True,
                 hit_pillar := True, boundary := True\<rparr>)"
    unfolding t by (simp add: hit_tile_def ray_init_def del: of_nat_Suc)
next
  assume t: "probe_tile g px py (radians a) (Suc n) = CHR ''C''"
  then have "stops_ray (probe_tile g px py (radians a) (Suc n))" by (simp add: stops_ray_def)
  from cast_ray_hit [OF assms this] show "cast_ray g px py a depth =
          Inr (ray_init\<lparr>distance_to_wall := of_nat (Suc n) * step_size, hit_wall := True,
                 hit_corner := True, boundary := True\<rparr>)"
    unfolding t by (simp add: hit_tile_def ray_init_def del: of_nat_Suc)
qed

theorem hit_classification_witness:
  "rect_grid MAP \<and> clear_run MAP 3.99 2.995 (radians 0) 16 0
   \<and> of_nat 0 * step_size < (16::real) \<and> probe_in_grid MAP 3.99 2.995 (radians 0) (Suc 0)
   \<and> probe_tile MAP 3.99 2.995 (radians 0) (Suc 0) = CHR ''#''
   \<and> cast_ray MAP 3.99 2.995 0 16 =
       Inr (ray_init\<lparr>distance_to_wall := 0.02, hit_wall := True, wall_orientation := 0,
              boundary := True, adjacent_walls := [(0, 1), (1, 0)], hit_corner := False\<rparr>)"
proof -
  have lt: "of_nat 0 * step_size < (16::real)" by simp
  have ig: "probe_in_grid MAP 3.99 2.995 (radians 0) (Suc 0)"
    by (simp add: probe_eval spec_eval radians_def step_size_def py_int_def MAP_def)
  have t: "probe_tile MAP 3.99 2.995 (radians 0) (Suc 0) = CHR ''#''"
    by (simp add: probe_eval spec_eval radians_def step_size_def py_int_def MAP_def)
  have nb: "wall_neighbours MAP 4 2 = [(0, 1), (1, 0)]"
    by (simp add: wall_neighbours_def neighbours_def spec_eval MAP_def)
  have c: "probe_cell 3.99 2.995 (radians 0) (Suc 0) = (4, 2)"
    by (simp add: probe_eval radians_def step_size_def py_int_def)
  from hit_classification [OF rect_grid_MAP clear_run_0 lt ig] t
  have "cast_ray MAP 3.99 2.995 0 16 =
       Inr (ray_init\<lparr>distance_to_wall := 0.02, hit_wall := True, wall_orientation := 0,
              boundary := True, adjacent_walls := [(0, 1), (1, 0)], hit_corner := False\<rparr>)"
    by (simp add: probe_eval spec_eval wall_neighbours_def neighbours_def radians_def
        step_size_def py_int_def MAP_def)
  with rect_grid_MAP clear_run_0 lt ig t show ?thesis by blast
qed

lemma not_leaves_example: "\<not> leaves_grid MAP 3.99 2.995 (radians 0) 5"
proof
  assume "leaves_grid MAP 3.99 2.995 (radians 0) 5"
  then obtain n where cr: "clear_run MAP 3.99 2.995 (radians 0) 5 n"
    and out: "\<not> probe_in_grid MAP 3.99 2.995 (radians 0) (Suc n)"
    by (auto simp: leaves_grid_def)
  have ig: "probe_in_grid MAP 3.99 2.995 (radians 0) (Suc 0)"
    by (simp add: probe_eval spec_eval radians_def step_size_def py_int_def MAP_def)
  have np: "\<not> passes MAP 3.99 2.995 (radians 0) (Suc 0)"
    by (simp add: probe_eval spec_eval radians_def step_size_def py_int_def MAP_def)
  show False
  proof (cases n)
    case 0
    with out ig show False by simp
  next
    case (Suc m)
    with cr have "passes MAP 3.99 2.995 (radians 0) (Suc 0)"
      by (simp add: clear_run_def)
    with np show False by simp
  qed
qed

lemma rect_grid_cell: "rect_grid [''.'']"
  by (simp add: rect_grid_def)

lemma leaves_example: "leaves_grid [''.''] 0.99 0.5 (radians 0) 5"
proof -
  have "\<not> probe_in_grid [''.''] 0.99 0.5 (radians 0) (Suc 0)"
    by (simp add: probe_eval spec_eval radians_def step_size_def py_int_def)
  moreover have "of_nat 0 * step_size < (5::real)" by simp
  ultimately show ?thesis
    unfolding leaves_grid_def using clear_run_0 by blast
qed

section \<open>C6: a larger depth limit\<close>

text \<open>
  On the one-cell grid \<open>[''.'']\<close> the ray from \<open>(0.99, 0.5)\<close> at angle \<open>0\<close> leaves the grid at
  its first probe. The result is a hit with either depth limit, but its distance is the
  limit itself: \<open>5\<close> with the limit \<open>5\<close>, \<open>10\<close> with the limit \<open>10\<close>.
\<close>

theorem depth_monotone_counterexample:
  "(5::real) < 10
   \<and> cast_ray [''.''] 0.99 0.5 0 5 = Inr (ray_init\<lparr>hit_wall := True, distance_to_wall := 5\<rparr>)
   \<and> hit_wall (ray_init\<lparr>hit_wall := True, distance_to_wall := 5\<rparr>)
   \<and> cast_ray [''.''] 0.99 0.5 0 10 = Inr (ray_init\<lparr>hit_wall := True, distance_to_wall := 10\<rparr>)
   \<and> cast_ray [''.''] 0.99 0.5 0 10 \<noteq> cast_ray [''.''] 0.99 0.5 0 5"
  by (simp add: ray_eval grid_eval)

text \<open>
  C6, as amended. Let the march with the limit \<open>depth1\<close> end in a hit, and let
  \<open>depth1 < depth2\<close>. If the ray did not leave the grid, the march with \<open>depth2\<close> returns
  the same result in every component. If it left the grid, both results are the bare wall
  hit of a ray out of bounds and differ in the distance only, which is the depth limit
  of each.
\<close>

theorem depth_monotone:
  assumes "rect_grid g" and "depth1 < depth2"
    and "cast_ray g px py a depth1 = Inr r1" and "hit_wall r1"
  shows "if leaves_grid g px py (radians a) depth1
         then r1 = ray_init\<lparr>hit_wall := True, distance_to_wall := depth1\<rparr>
              \<and> cast_ray g px py a depth2
                  = Inr (ray_init\<lparr>hit_wall := True, distance_to_wall := depth2\<rparr>)
         else cast_ray g px py a depth2 = Inr r1"
proof -
  let ?ra = "radians a"
  from stop_exists [of g px py ?ra depth1]
  obtain n where cr: "clear_run g px py ?ra depth1 n"
    and n: "depth1 \<le> of_nat n * step_size \<or> \<not> passes g px py ?ra (Suc n)"
    by blast
  let ?r0 = "ray_init\<lparr>distance_to_wall := of_nat n * step_size\<rparr>"
  have d: "distance_to_wall ?r0 = of_nat n * step_size" by simp
  have lt: "of_nat n * step_size < depth1"
  proof (rule ccontr)
    assume "\<not> of_nat n * step_size < depth1"
    then have "depth1 \<le> of_nat n * step_size" by simp
    from march_out_of_range [OF assms(1) cr this] assms(3)
    have "r1 = ?r0" by (simp add: cast_ray_def)
    with assms(4) show False by (simp add: ray_init_sel)
  qed
  with n have np: "\<not> passes g px py ?ra (Suc n)" by simp
  from cr assms(2) have cr2: "clear_run g px py ?ra depth2 n"
    by (intro clear_run_deeper [of g px py ?ra depth1 n depth2]) simp_all
  from lt assms(2) have lt2: "of_nat n * step_size < depth2" by simp
  from march_stops [OF assms(1) cr lt np] assms(3)
  have s1: "ray_step g px py ?ra depth1 ?r0 = Inr r1" by (simp add: cast_ray_def)
  from march_stops [OF assms(1) cr2 lt2 np]
  obtain r2 where m2: "cast_ray g px py a depth2 = Inr r2"
    and s2: "ray_step g px py ?ra depth2 ?r0 = Inr r2"
    by (auto simp: cast_ray_def)
  show ?thesis
  proof (cases "probe_in_grid g px py ?ra (Suc n)")
    case True
    have "\<not> leaves_grid g px py ?ra depth1"
    proof
      assume "leaves_grid g px py ?ra depth1"
      then obtain n' where cr': "clear_run g px py ?ra depth1 n'"
        and out: "\<not> probe_in_grid g px py ?ra (Suc n')"
        by (auto simp: leaves_grid_def)
      from out have "\<not> passes g px py ?ra (Suc n')" by (simp add: passes_def)
      from stop_unique [OF cr np cr' this] True out show False by simp
    qed
    moreover from s1 s2 True have "r2 = r1"
      unfolding ray_step_rect [OF assms(1) d] by simp
    ultimately show ?thesis using m2 by simp
  next
    case False
    with cr lt have "leaves_grid g px py ?ra depth1" by (auto simp: leaves_grid_def)
    moreover from s1 False have "r1 = ray_init\<lparr>hit_wall := True, distance_to_wall := depth1\<rparr>"
      unfolding ray_step_rect [OF assms(1) d] by simp
    moreover from s2 False have "r2 = ray_init\<lparr>hit_wall := True, distance_to_wall := depth2\<rparr>"
      unfolding ray_step_rect [OF assms(1) d] by simp
    ultimately show ?thesis using m2 by simp
  qed
qed

theorem depth_monotone_witness:
  "rect_grid MAP \<and> (5::real) < 16
   \<and> cast_ray MAP 3.99 2.995 0 5 =
       Inr (ray_init\<lparr>distance_to_wall := 0.02, hit_wall := True, boundary := True,
              adjacent_walls := [(0, 1), (1, 0)]\<rparr>)
   \<and> hit_wall (ray_init\<lparr>distance_to_wall := 0.02, hit_wall := True, boundary := True,
              adjacent_walls := [(0, 1), (1, 0)]\<rparr>)
   \<and> \<not> leaves_grid MAP 3.99 2.995 (radians 0) 5
   \<and> cast_ray MAP 3.99 2.995 0 16 =
       Inr (ray_init\<lparr>distance_to_wall := 0.02, hit_wall := True, boundary := True,
              adjacent_walls := [(0, 1), (1, 0)]\<rparr>)
   \<and> rect_grid [''.''] \<and> (5::real) < 10
   \<and> cast_ray [''.''] 0.99 0.5 0 5 = Inr (ray_init\<lparr>hit_wall := True, distance_to_wall := 5\<rparr>)
   \<and> leaves_grid [''.''] 0.99 0.5 (radians 0) 5
   \<and> cast_ray [''.''] 0.99 0.5 0 10 = Inr (ray_init\<lparr>hit_wall := True, distance_to_wall := 10\<rparr>)"
proof -
  let ?r = "ray_init\<lparr>distance_to_wall := 0.02, hit_wall := True, boundary := True,
              adjacent_walls := [(0, 1), (1, 0)]\<rparr>"
  let ?w = "ray_init\<lparr>hit_wall := True, distance_to_wall := 5\<rparr>"
  have lt: "(5::real) < 16" by simp
  have c: "cast_ray MAP 3.99 2.995 0 5 = Inr ?r"
    by (simp add: ray_eval grid_eval MAP_def)
  have h: "hit_wall ?r" by simp
  from depth_monotone [OF rect_grid_MAP lt c h] not_leaves_example
  have 1: "cast_ray MAP 3.99 2.995 0 16 = Inr ?r" by simp
  have lt': "(5::real) < 10" by simp
  have c': "cast_ray [''.''] 0.99 0.5 0 5 = Inr ?w"
    by (simp add: ray_eval grid_eval)
  have h': "hit_wall ?w" by simp
  from depth_monotone [OF rect_grid_cell lt' c' h'] leaves_example
  have 2: "cast_ray [''.''] 0.99 0.5 0 10 = Inr (ray_init\<lparr>hit_wall := True, distance_to_wall := 10\<rparr>)"
    by simp
  from rect_grid_MAP lt c h not_leaves_example 1 rect_grid_cell lt' c' leaves_example 2
  show ?thesis by blast
qed

section \<open>C8: the divisor of the projection\<close>

text \<open>
  For the first column, \<open>x = 0\<close>, the ray angle differs from the view angle by exactly
  \<open>FOV / 2\<close>: the difference is not strictly below \<open>FOV / 2\<close> in absolute value.
\<close>

theorem column_angle_counterexample:
  "(0::int) \<le> 0 \<and> (0::int) < min 80 1000 \<and> \<bar>ray_angle_of 0 0 80 - 0\<bar> = FOV / 2
   \<and> \<not> \<bar>ray_angle_of 0 0 80 - 0\<bar> < FOV / 2"
  by (simp add: ray_angle_of_def FOV_def)

text \<open>
  C8, as amended. For every column \<open>x\<close> with \<open>0 \<le> x < min(width, 1000)\<close> the ray angle
  minus the view angle lies in \<open>[-FOV / 2, FOV / 2)\<close>, the lower bound being reached at
  \<open>x = 0\<close>; its cosine, the fisheye correction, is strictly positive. On a rectangular
  grid the march returns with a distance of at least one \<open>step_size\<close>, so the corrected
  distance is strictly positive and the projection divides by a positive number: the
  column is computed without an error.
\<close>

theorem column_divisor_positive:
  assumes "rect_grid g" and "0 \<le> x" and "x < min width 1000"
  shows "- (FOV / 2) \<le> ray_angle_of pa x width - pa
       \<and> ray_angle_of pa x width - pa < FOV / 2
       \<and> 0 < fisheye_correction (ray_angle_of pa x width) pa
       \<and> (\<exists>r cd c f. cast_column g px py pa vh width x = Inr (r, cd, c, f)
             \<and> step_size \<le> distance_to_wall r
             \<and> cd = distance_to_wall r * fisheye_correction (ray_angle_of pa x width) pa
             \<and> 0 < cd)"
proof -
  let ?ra = "ray_angle_of pa x width"
  note b = column_angle_bounds [OF assms(2,3), of pa]
  from b have f: "0 < fisheye_correction ?ra pa" by (rule fisheye_positive)
  have "step_size \<le> DEPTH" by (simp add: step_size_def DEPTH_def)
  from cast_ray_reaches [OF assms(1) this, of px py ?ra]
  obtain r where r: "cast_ray g px py ?ra DEPTH = Inr r" and d: "step_size \<le> distance_to_wall r"
    by blast
  from d have "0 < distance_to_wall r" by (simp add: step_size_def)
  with f have cd: "0 < distance_to_wall r * fisheye_correction ?ra pa" by simp
  then have "distance_to_wall r * fisheye_correction ?ra pa \<noteq> 0" by linarith
  then have "\<exists>c f. project_column vh (distance_to_wall r * fisheye_correction ?ra pa)
      (hit_lower_wall r) = Inr (c, f)"
    unfolding project_column_def Let_def by simp
  then obtain c f' where "project_column vh (distance_to_wall r * fisheye_correction ?ra pa)
      (hit_lower_wall r) = Inr (c, f')"
    by blast
  with r have "cast_column g px py pa vh width x
      = Inr (r, distance_to_wall r * fisheye_correction ?ra pa, c, f')"
    by (simp add: cast_column_def Let_def)
  with b f d cd show ?thesis by blast
qed

theorem column_divisor_positive_witness:
  "rect_grid MAP \<and> (0::int) \<le> 40 \<and> (40::int) < min 80 1000
   \<and> - (FOV / 2) \<le> ray_angle_of 90 40 80 - 90
   \<and> ray_angle_of 90 40 80 - 90 < FOV / 2
   \<and> 0 < fisheye_correction (ray_angle_of 90 40 80) 90
   \<and> (\<exists>r cd c f. cast_column MAP 7.5 1.9 90 22 80 40 = Inr (r, cd, c, f)
             \<and> step_size \<le> distance_to_wall r
             \<and> cd = distance_to_wall r * fisheye_correction (ray_angle_of 90 40 80) 90
             \<and> 0 < cd)"
proof -
  have x: "(0::int) \<le> 40" "(40::int) < min 80 1000" by simp_all
  from column_divisor_positive [OF rect_grid_MAP x, of 90 "7.5" "1.9" 22] rect_grid_MAP x
  show ?thesis by blast
qed

section \<open>C10: the door\<close>

text \<open>
  C10. The program's map holds the tile \<open>D\<close> (row 4, column 9), which is none of the
  tiles the ray loop or the movement test names. A pass of the ray loop that finds \<open>D\<close>
  inside the grid only advances the distance, as for an open cell, and the loop goes on;
  a probe on \<open>D\<close> does not stop the ray. A movement key whose destination cell holds \<open>D\<close>
  commits the move.
\<close>

theorem door_is_open:
  assumes "rect_grid g"
  shows "tile_at MAP 4 9 = Inr CHR ''D''
   \<and> (\<not> hit_wall r \<and> distance_to_wall r < depth
        \<and> in_grid g (py_int (px + cos ra * (distance_to_wall r + step_size)))
                     (py_int (py + sin ra * (distance_to_wall r + step_size)))
        \<and> tile g (py_int (px + cos ra * (distance_to_wall r + step_size)))
                  (py_int (py + sin ra * (distance_to_wall r + step_size))) = CHR ''D''
      \<longrightarrow> ray_step g px py ra depth r
            = Inr (r\<lparr>distance_to_wall := distance_to_wall r + step_size\<rparr>)
          \<and> march g px py ra depth r
            = march g px py ra depth (r\<lparr>distance_to_wall := distance_to_wall r + step_size\<rparr>))
   \<and> (probe_in_grid g px py ra k \<and> probe_tile g px py ra k = CHR ''D'' \<longrightarrow> passes g px py ra k)
   \<and> (key \<in> {119, 115, 97, 100}
        \<and> in_grid g (fst (dest_cell key s)) (snd (dest_cell key s))
        \<and> tile g (fst (dest_cell key s)) (snd (dest_cell key s)) = CHR ''D''
      \<longrightarrow> handle_key g rng key s
            = Inr (s\<lparr>player_x := fst (destination key s), player_y := snd (destination key s)\<rparr>))"
proof (intro conjI impI)
  show "tile_at MAP 4 9 = Inr CHR ''D''"
    by (simp add: grid_eval MAP_def)
next
  assume a: "\<not> hit_wall r \<and> distance_to_wall r < depth
        \<and> in_grid g (py_int (px + cos ra * (distance_to_wall r + step_size)))
                     (py_int (py + sin ra * (distance_to_wall r + step_size)))
        \<and> tile g (py_int (px + cos ra * (distance_to_wall r + step_size)))
                  (py_int (py + sin ra * (distance_to_wall r + step_size))) = CHR ''D''"
  then have ig: "in_grid g (py_int (px + cos ra * (distance_to_wall r + step_size)))
                     (py_int (py + sin ra * (distance_to_wall r + step_size)))"
    by simp
  from ig have b: "\<not> (py_int (px + cos ra * (distance_to_wall r + step_size)) < 0
        \<or> py_int (py + sin ra * (distance_to_wall r + step_size)) < 0)"
      "\<not> (py_int (px + cos ra * (distance_to_wall r + step_size)) \<ge> grid_width g
        \<or> py_int (py + sin ra * (distance_to_wall r + step_size)) \<ge> map_height g)"
    by (auto simp: in_grid_def)
  show st: "ray_step g px py ra depth r
      = Inr (r\<lparr>distance_to_wall := distance_to_wall r + step_size\<rparr>)"
    unfolding ray_step_def Let_def
    using a b tile_at_rect [OF assms ig]
    by (simp add: map_width_rect [OF assms] hit_tile_def)
  from a show "march g px py ra depth r
      = march g px py ra depth (r\<lparr>distance_to_wall := distance_to_wall r + step_size\<rparr>)"
    by (subst march.simps) (simp add: st)
next
  assume "probe_in_grid g px py ra k \<and> probe_tile g px py ra k = CHR ''D''"
  then show "passes g px py ra k" by (simp add: passes_def stops_ray_def)
next
  assume a: "key \<in> {119, 115, 97, 100}
        \<and> in_grid g (fst (dest_cell key s)) (snd (dest_cell key s))
        \<and> tile g (fst (dest_cell key s)) (snd (dest_cell key s)) = CHR ''D''"
  then have "handle_key g rng key s =
      try_move g (fst (destination key s)) (snd (destination key s)) s"
    by (auto simp: handle_key_def destination_def)
  with a show "handle_key g rng key s
      = Inr (s\<lparr>player_x := fst (destination key s), player_y := snd (destination key s)\<rparr>)"
    by (simp add: try_move_rect [OF assms] dest_cell_def)
qed

theorem door_is_open_witness:
  "rect_grid MAP
   \<and> tile MAP 9 4 = CHR ''D''
   \<and> ray_step MAP 8.99 4.5 0 16 ray_init = Inr (ray_init\<lparr>distance_to_wall := 0.02\<rparr>)
   \<and> march MAP 8.99 4.5 0 16 ray_init = march MAP 8.99 4.5 0 16 (ray_init\<lparr>distance_to_wall := 0.02\<rparr>)
   \<and> passes MAP 8.99 4.5 0 1
   \<and> handle_key MAP (\<lambda>k. 0) 119 (init_game\<lparr>player_x := 8.8, player_y := 4.5\<rparr>)
       = Inr (init_game\<lparr>player_x := 9.1, player_y := 4.5\<rparr>)"
proof -
  let ?s = "init_game\<lparr>player_x := 8.8, player_y := 4.5\<rparr>"
  note d = door_is_open [OF rect_grid_MAP, of ray_init 16 "8.99" 0 "4.5" 1 119 ?s "\<lambda>k. 0"]
  have t: "tile MAP 9 4 = CHR ''D''" by (simp add: tile_def MAP_def)
  from d have 1: "ray_step MAP 8.99 4.5 0 16 ray_init = Inr (ray_init\<lparr>distance_to_wall := 0.02\<rparr>)
      \<and> march MAP 8.99 4.5 0 16 ray_init
          = march MAP 8.99 4.5 0 16 (ray_init\<lparr>distance_to_wall := 0.02\<rparr>)"
    by (simp add: ray_init_sel step_size_def py_int_def in_grid_def grid_width_def map_height_def
        tile_def MAP_def)
  from d have 2: "passes MAP 8.99 4.5 0 1"
    by (simp add: probe_in_grid_def probe_tile_def probe_cell_def probe_def step_size_def
        py_int_def in_grid_def grid_width_def map_height_def tile_def MAP_def)
  from d have 3: "handle_key MAP (\<lambda>k. 0) 119 ?s = Inr (init_game\<lparr>player_x := 9.1, player_y := 4.5\<rparr>)"
    by (simp add: spec_eval py_int_def init_game_def move_step_def radians_def MAP_def)
  from rect_grid_MAP t 1 2 3 show ?thesis by blast
qed

end
